theory Spec2Isabelle
  imports Main
begin

section \<open>The scene graph of the host, as far as ContainerObject.cpp touches it\<close>

text \<open>
  Every node of a document (object, tag or material) is a \<open>BaseList2D\<close>. The plug-in
  reads and writes six node bits, the selection bit, the type, the parameter container
  and, for a container object, the \<open>ContainerObject\<close> node data.

  Host facts built into the types:
  \<^item> \<open>GetDataInstance()\<close> returns the address of the parameter container a node owns
    (the source asserts it with \<open>CriticalAssert\<close>), so every node has one here;
  \<^item> the hierarchy below a node is a tree (\<open>GetDown\<close>, then \<open>GetNext\<close> along the
    level), so a level is a list of nodes and \<open>GetNext\<close> is its tail;
  \<^item> the undo stack is owned by the document and only receives snapshots
    (\<open>AddUndo\<close>); it is not part of the state modelled here.
\<close>

type_synonym bitmap = "nat list"

text \<open>
  The type of a node, as far as the source tells types apart: \<open>Ocontainer\<close> and any
  other object are the instances of \<open>Obase\<close>, \<open>Ttexture\<close> and any other tag, and the
  materials (the instances of \<open>Mbase\<close>).
\<close>

datatype ntype = Ocontainer | Oother | Ttexture | Tother | Mmaterial

datatype NBIT = NBIT_OHIDE | NBIT_TL1_HIDE | NBIT_TL2_HIDE | NBIT_TL3_HIDE
  | NBIT_TL4_HIDE | NBIT_THIDE

datatype NBITCONTROL = NBITCONTROL_SET | NBITCONTROL_CLEAR | NBITCONTROL_TOGGLE

text \<open>The members of \<open>class ContainerObject\<close> (lines 121-123).\<close>

record ContainerObject =
  m_customIcon :: "bitmap option"
  m_protected :: bool
  m_protectionHash :: string

text \<open>The parameters of a node's \<open>BaseContainer\<close> that the source reads or writes.\<close>

record BaseContainer =
  CONTAINEROBJECT_PROTECTIONHASH :: string
  NRCONTAINER_HIDE_TAGS :: bool
  NRCONTAINER_HIDE_MATERIALS :: bool
  NRCONTAINER_GENERATOR_CHECKMARK :: bool
  NRCONTAINER_INFO_NAME :: string
  NRCONTAINER_INFO_VERSION :: string
  NRCONTAINER_INFO_URL :: string
  NRCONTAINER_INFO_AUTHOR :: string
  NRCONTAINER_INFO_AUTHOR_EMAIL :: string
  NRCONTAINER_INFO_DESCRIPTION :: string

text \<open>
  \<open>TEXTURETAG_MATERIAL\<close> is what \<open>GetParameter(TEXTURETAG_MATERIAL, ...)\<close> yields on
  the node: \<open>None\<close> when the call returns false, otherwise the stored link.
  \<open>NodeData\<close> is the result of \<open>GetNodeData<ContainerObject>\<close>, \<open>None\<close> for null.
\<close>

record BaseList2D =
  nbit_ohide :: bool
  nbit_tl1_hide :: bool
  nbit_tl2_hide :: bool
  nbit_tl3_hide :: bool
  nbit_tl4_hide :: bool
  nbit_thide :: bool
  BIT_ACTIVE :: bool
  GetType :: ntype
  GetDataInstance :: BaseContainer
  TEXTURETAG_MATERIAL :: "nat option"
  NodeData :: "ContainerObject option"

datatype 'a tree = Node (info: 'a) (tags: "'a tree list") (down: "'a tree list")

type_synonym node = "BaseList2D tree"

text \<open>The materials of the document, by address.\<close>

type_synonym materials = "nat \<Rightarrow> node option"

section \<open>Host primitives on one node\<close>

fun nbitcontrol :: "NBITCONTROL \<Rightarrow> bool \<Rightarrow> bool" where
  "nbitcontrol NBITCONTROL_SET b = True"
| "nbitcontrol NBITCONTROL_CLEAR b = False"
| "nbitcontrol NBITCONTROL_TOGGLE b = (\<not> b)"

fun ChangeNBit :: "NBIT \<Rightarrow> NBITCONTROL \<Rightarrow> BaseList2D \<Rightarrow> BaseList2D" where
  "ChangeNBit NBIT_OHIDE c n = n\<lparr>nbit_ohide := nbitcontrol c (nbit_ohide n)\<rparr>"
| "ChangeNBit NBIT_TL1_HIDE c n = n\<lparr>nbit_tl1_hide := nbitcontrol c (nbit_tl1_hide n)\<rparr>"
| "ChangeNBit NBIT_TL2_HIDE c n = n\<lparr>nbit_tl2_hide := nbitcontrol c (nbit_tl2_hide n)\<rparr>"
| "ChangeNBit NBIT_TL3_HIDE c n = n\<lparr>nbit_tl3_hide := nbitcontrol c (nbit_tl3_hide n)\<rparr>"
| "ChangeNBit NBIT_TL4_HIDE c n = n\<lparr>nbit_tl4_hide := nbitcontrol c (nbit_tl4_hide n)\<rparr>"
| "ChangeNBit NBIT_THIDE c n = n\<lparr>nbit_thide := nbitcontrol c (nbit_thide n)\<rparr>"

definition DelBit_ACTIVE :: "BaseList2D \<Rightarrow> BaseList2D" where
  "DelBit_ACTIVE n = n\<lparr>BIT_ACTIVE := False\<rparr>"

definition IsInstanceOf_Obase :: "BaseList2D \<Rightarrow> bool" where
  "IsInstanceOf_Obase n = (GetType n = Ocontainer \<or> GetType n = Oother)"

section \<open>ContainerIsProtected (lines 559-571)\<close>

text \<open>
  The second argument is the caller's \<open>String* hash\<close> (\<open>None\<close> for a null pointer,
  otherwise the string it points to); the result pairs the returned \<open>Bool\<close> with
  that string after the call.
\<close>

definition ContainerIsProtected :: "node option \<Rightarrow> string option \<Rightarrow> bool \<times> string option" where
  "ContainerIsProtected op hash =
     (case op of
        None \<Rightarrow> (False, hash)
      | Some n \<Rightarrow>
          if GetType (info n) \<noteq> Ocontainer then (False, hash)
          else (case NodeData (info n) of
                  None \<Rightarrow> (False, hash)
                | Some data \<Rightarrow>
                    if m_protected data
                    then (True, (case hash of None \<Rightarrow> None
                                 | Some _ \<Rightarrow> Some (m_protectionHash data)))
                    else (False, hash)))"

section \<open>HideHierarchy (lines 51-87)\<close>

text \<open>Lines 57-64: the six node bits follow \<open>hide\<close>, the selection bit is deleted.\<close>

definition change_bits :: "bool \<Rightarrow> BaseList2D \<Rightarrow> BaseList2D" where
  "change_bits hide root =
     (let control = (if hide then NBITCONTROL_SET else NBITCONTROL_CLEAR)
      in DelBit_ACTIVE
          (ChangeNBit NBIT_THIDE control
          (ChangeNBit NBIT_TL4_HIDE control
          (ChangeNBit NBIT_TL3_HIDE control
          (ChangeNBit NBIT_TL2_HIDE control
          (ChangeNBit NBIT_TL1_HIDE control
          (ChangeNBit NBIT_OHIDE control root)))))))"

text \<open>Lines 66-79: whether the loop goes on into the children of \<open>root\<close>.\<close>

definition hideChildren :: "node \<Rightarrow> bool" where
  "hideChildren root =
     (if IsInstanceOf_Obase (info root)
      then (if CONTAINEROBJECT_PROTECTIONHASH (GetDataInstance (info root)) \<noteq> []
            then False
            else if fst (ContainerIsProtected (Some root) None) then False
            else True)
      else True)"

text \<open>
  The argument is \<open>root\<close> with the nodes that follow it on its level; the result is
  the level after the loop. With \<open>sameLevel\<close> false the loop stops after \<open>root\<close>.
\<close>

fun HideHierarchy :: "node list \<Rightarrow> bool \<Rightarrow> bool \<Rightarrow> node list" where
  "HideHierarchy [] hide sameLevel = []"
| "HideHierarchy (Node r ts ds # nxt) hide sameLevel =
     Node (change_bits hide r) ts
       (if hideChildren (Node (change_bits hide r) ts ds)
        then HideHierarchy ds hide True else ds)
     # (if \<not> sameLevel then nxt else HideHierarchy nxt hide sameLevel)"

section \<open>HideMaterials (lines 94-112)\<close>

text \<open>
  \<open>GetLink\<close> stands for \<open>data.GetLink(doc, Mbase)\<close> of the host, for the document
  pointer the caller passes: it takes the link stored in the tag to the address of a
  material, or to \<open>None\<close> (a null pointer). \<open>HideHierarchy(mat, hide, doc, false)\<close>
  then runs on that material alone, which leaves one node in its place; an address at
  which the document holds no material is passed over.
\<close>

definition HideMaterials_tag ::
  "(nat \<Rightarrow> nat option) \<Rightarrow> bool \<Rightarrow> node \<Rightarrow> materials \<Rightarrow> materials" where
  "HideMaterials_tag GetLink hide tag mats =
     (if GetType (info tag) = Ttexture
      then (case TEXTURETAG_MATERIAL (info tag) of
              None \<Rightarrow> mats
            | Some data \<Rightarrow>
                (case GetLink data of
                   None \<Rightarrow> mats
                 | Some mat \<Rightarrow>
                     (case mats mat of
                        None \<Rightarrow> mats
                      | Some m \<Rightarrow> mats(mat \<mapsto> hd (HideHierarchy [m] hide False)))))
      else mats)"

fun HideMaterials ::
  "(nat \<Rightarrow> nat option) \<Rightarrow> node \<Rightarrow> bool \<Rightarrow> materials \<Rightarrow> materials" where
  "HideMaterials GetLink (Node r ts ds) hide mats =
     fold (\<lambda>child. HideMaterials GetLink child hide) ds
       (fold (HideMaterials_tag GetLink hide) ts mats)"

section \<open>ContainerObject::HideNodes (lines 313-331)\<close>

definition HideNodes ::
  "(nat \<Rightarrow> nat option) \<Rightarrow> node \<Rightarrow> bool \<Rightarrow> materials \<Rightarrow> node \<times> materials" where
  "HideNodes GetLink op hide mats =
     (if hide
      then (let bc = GetDataInstance (info op);
                op1 = Node (info op) (tags op) (HideHierarchy (down op) True True);
                op2 = (if NRCONTAINER_HIDE_TAGS bc
                       then Node (info op1) (HideHierarchy (tags op1) True True) (down op1)
                       else op1)
            in (op2, if NRCONTAINER_HIDE_MATERIALS bc
                     then HideMaterials GetLink op2 True mats else mats))
      else (let op1 = Node (info op) (tags op) (HideHierarchy (down op) False True);
                op2 = Node (info op1) (HideHierarchy (tags op1) False True) (down op1)
            in (op2, HideMaterials GetLink op2 False mats)))"

section \<open>ContainerObject::ToggleProtect (lines 262-310)\<close>

text \<open>
  What the method does to the host besides changing nodes is kept as a list of
  events, in the order of the calls. \<open>HashString\<close> and \<open>PasswordDialog\<close> are
  declared in \<open>Utils/Misc.h\<close> and are parameters here: \<open>PasswordDialog confirm cancel\<close>
  is \<open>None\<close> when the dialog returns false, otherwise the password it stored.

  The method runs on the \<open>ContainerObject\<close> that is the node data of \<open>op\<close>: the model
  reads \<open>this\<close> from \<open>op\<close> and stores the members it writes back there. A node with no
  such node data has no method to call, and the state stays as it is.

  Lines 264-270 only talk to the undo stack, and the test of line 273 cannot fail on a
  node that owns its parameter container; neither has a counterpart below.
\<close>

datatype event =
    PasswordDialog_call bool bool
  | MessageDialog_IDS_PASSWORD_INVALID
  | Message_MSG_CHANGE
  | SetDirty_DESCRIPTION
  | EventAdd

record toggle_result =
  r_op :: node
  r_mats :: materials
  r_events :: "event list"

definition SetNodeData :: "node \<Rightarrow> ContainerObject \<Rightarrow> node" where
  "SetNodeData op data = Node ((info op)\<lparr>NodeData := Some data\<rparr>) (tags op) (down op)"

text \<open>Lines 307-309.\<close>

definition notify :: "event list" where
  "notify = [Message_MSG_CHANGE, SetDirty_DESCRIPTION, EventAdd]"

definition ToggleProtect ::
  "(string \<Rightarrow> string) \<Rightarrow> (bool \<Rightarrow> bool \<Rightarrow> string option) \<Rightarrow> (nat \<Rightarrow> nat option)
     \<Rightarrow> node \<Rightarrow> materials \<Rightarrow> toggle_result" where
  "ToggleProtect HashString PasswordDialog GetLink op mats =
     (case NodeData (info op) of
        None \<Rightarrow> \<lparr>r_op = op, r_mats = mats, r_events = []\<rparr>
      | Some this \<Rightarrow>
          if \<not> m_protected this
          then (case PasswordDialog False True of
                  None \<Rightarrow>
                    \<lparr>r_op = op, r_mats = mats, r_events = [PasswordDialog_call False True]\<rparr>
                | Some password \<Rightarrow>
                    (let hashed = HashString password;
                         op' = SetNodeData op
                                 (this\<lparr>m_protected := True, m_protectionHash := hashed\<rparr>);
                         res = HideNodes GetLink op' True mats
                     in \<lparr>r_op = fst res, r_mats = snd res,
                         r_events = PasswordDialog_call False True # notify\<rparr>))
          else (let emptyPassHash = HashString [];
                    asked =
                      (if m_protectionHash this = emptyPassHash then (True, [])
                       else (case PasswordDialog True True of
                               None \<Rightarrow> (False, [PasswordDialog_call True True])
                             | Some password \<Rightarrow>
                                 if m_protectionHash this = HashString password
                                 then (True, [PasswordDialog_call True True])
                                 else (False, [PasswordDialog_call True True,
                                               MessageDialog_IDS_PASSWORD_INVALID])));
                    res = (if fst asked
                           then HideNodes GetLink
                                  (SetNodeData op (this\<lparr>m_protected := False\<rparr>)) False mats
                           else (op, mats))
                in \<lparr>r_op = fst res, r_mats = snd res, r_events = snd asked @ notify\<rparr>))"

section \<open>ContainerProtect (lines 575-589)\<close>

definition ContainerProtect ::
  "(string \<Rightarrow> string) \<Rightarrow> (nat \<Rightarrow> nat option) \<Rightarrow> node option \<Rightarrow> string \<Rightarrow> string \<Rightarrow> bool
     \<Rightarrow> materials \<Rightarrow> bool \<times> node option \<times> materials" where
  "ContainerProtect HashString GetLink op pass hash packup mats =
     (case op of
        None \<Rightarrow> (False, op, mats)
      | Some n \<Rightarrow>
          if GetType (info n) \<noteq> Ocontainer then (False, op, mats)
          else (case NodeData (info n) of
                  None \<Rightarrow> (False, op, mats)
                | Some data \<Rightarrow>
                    if m_protected data then (False, op, mats)
                    else (let hash' = (if hash = [] then HashString pass else hash);
                              n' = SetNodeData n
                                     (data\<lparr>m_protected := True, m_protectionHash := hash'\<rparr>);
                              res = (if packup then HideNodes GetLink n' packup mats
                                     else (n', mats))
                          in (True, Some (fst res), snd res))))"

section \<open>ContainerObject::Init, Read and Write (lines 354-372, 380-440)\<close>

text \<open>
  \<open>super_Init\<close>, \<open>super_Read\<close> and \<open>super_Write\<close> are the results of the base class
  calls. \<open>BaseBitmap::Free\<close> nulls the pointer it is given.
\<close>

definition Init :: "bool \<Rightarrow> ContainerObject \<Rightarrow> node option \<Rightarrow> bool \<times> ContainerObject \<times> node option" where
  "Init super_Init this node =
     (case node of
        None \<Rightarrow> (False, this, node)
      | Some n \<Rightarrow>
          if \<not> super_Init then (False, this, node)
          else (let this' = this\<lparr>m_customIcon := None, m_protected := False,
                                   m_protectionHash := []\<rparr>;
                    bc = (GetDataInstance (info n))
                           \<lparr>NRCONTAINER_HIDE_TAGS := False,
                            NRCONTAINER_HIDE_MATERIALS := True,
                            NRCONTAINER_GENERATOR_CHECKMARK := True,
                            NRCONTAINER_INFO_NAME := [],
                            NRCONTAINER_INFO_VERSION := [],
                            NRCONTAINER_INFO_URL := [],
                            NRCONTAINER_INFO_AUTHOR := [],
                            NRCONTAINER_INFO_AUTHOR_EMAIL := [],
                            NRCONTAINER_INFO_DESCRIPTION := []\<rparr>
                in (True, this',
                    Some (Node ((info n)\<lparr>GetDataInstance := bc\<rparr>) (tags n) (down n)))))"

text \<open>
  A \<open>HyperFile\<close> is the sequence of items still to be read, or written so far.
  A read of the wrong kind of item, or past the end, fails. A write fails when the
  file takes no further item (\<open>hf_room\<close> counts the items it still takes).
\<close>

datatype hfitem = HF_Bool bool | HF_String string | HF_Image bitmap

record HyperFile =
  hf_items :: "hfitem list"
  hf_room :: nat

fun ReadBool :: "HyperFile \<Rightarrow> (bool \<times> HyperFile) option" where
  "ReadBool hf = (case hf_items hf of
                    HF_Bool b # rest \<Rightarrow> Some (b, hf\<lparr>hf_items := rest\<rparr>)
                  | _ \<Rightarrow> None)"

fun ReadString :: "HyperFile \<Rightarrow> (string \<times> HyperFile) option" where
  "ReadString hf = (case hf_items hf of
                      HF_String s # rest \<Rightarrow> Some (s, hf\<lparr>hf_items := rest\<rparr>)
                    | _ \<Rightarrow> None)"

fun ReadImage :: "HyperFile \<Rightarrow> (bitmap \<times> HyperFile) option" where
  "ReadImage hf = (case hf_items hf of
                     HF_Image b # rest \<Rightarrow> Some (b, hf\<lparr>hf_items := rest\<rparr>)
                   | _ \<Rightarrow> None)"

definition WriteItem :: "hfitem \<Rightarrow> HyperFile \<Rightarrow> HyperFile option" where
  "WriteItem x hf =
     (if hf_room hf = 0 then None
      else Some (hf\<lparr>hf_items := hf_items hf @ [x], hf_room := hf_room hf - 1\<rparr>))"

definition Read :: "bool \<Rightarrow> ContainerObject \<Rightarrow> HyperFile \<Rightarrow> int \<Rightarrow> bool \<times> ContainerObject \<times> HyperFile" where
  "Read super_Read this hf level =
     (if \<not> super_Read then (False, this, hf)
      else (case ReadBool hf of
              None \<Rightarrow> (False, this, hf)
            | Some (hasImage, hf1) \<Rightarrow>
                (let icon = (if hasImage
                             then (case ReadImage hf1 of
                                     None \<Rightarrow> (False, this\<lparr>m_customIcon := Some []\<rparr>, hf1)
                                   | Some (img, hf2) \<Rightarrow>
                                       (True, this\<lparr>m_customIcon := Some img\<rparr>, hf2))
                             else (True, this\<lparr>m_customIcon := None\<rparr>, hf1));
                     this1 = fst (snd icon);
                     hf2 = snd (snd icon)
                 in if \<not> fst icon then (False, this1, hf2)
                    else if level \<ge> 1000
                    then (case ReadBool hf2 of
                            None \<Rightarrow> (False, this1, hf2)
                          | Some (p, hf3) \<Rightarrow>
                              (let this2 = this1\<lparr>m_protected := p\<rparr>
                               in if p
                                  then (case ReadString hf3 of
                                          None \<Rightarrow> (False, this2, hf3)
                                        | Some (h, hf4) \<Rightarrow>
                                            (True, this2\<lparr>m_protectionHash := h\<rparr>, hf4))
                                  else (True, this2, hf3)))
                    else (True, this1, hf2))))"

definition Write :: "bool \<Rightarrow> ContainerObject \<Rightarrow> HyperFile \<Rightarrow> bool \<times> HyperFile" where
  "Write super_Write this hf =
     (if \<not> super_Write then (False, hf)
      else (case WriteItem (HF_Bool (m_customIcon this \<noteq> None)) hf of
              None \<Rightarrow> (False, hf)
            | Some hf1 \<Rightarrow>
                (case (case m_customIcon this of
                         None \<Rightarrow> Some hf1
                       | Some img \<Rightarrow> WriteItem (HF_Image img) hf1) of
                   None \<Rightarrow> (False, hf1)
                 | Some hf2 \<Rightarrow>
                     (case WriteItem (HF_Bool (m_protected this)) hf2 of
                        None \<Rightarrow> (False, hf2)
                      | Some hf3 \<Rightarrow>
                          if m_protected this
                          then (case WriteItem (HF_String (m_protectionHash this)) hf3 of
                                  None \<Rightarrow> (False, hf3)
                                | Some hf4 \<Rightarrow> (True, hf4))
                          else (True, hf3)))))"

section \<open>Observations used in the statements\<close>

text \<open>The six node bits of a node, in the order of lines 58-63.\<close>

definition visibility_bits :: "BaseList2D \<Rightarrow> bool list" where
  "visibility_bits n =
     [nbit_ohide n, nbit_tl1_hide n, nbit_tl2_hide n, nbit_tl3_hide n, nbit_tl4_hide n,
      nbit_thide n]"

text \<open>
  The nodes the loop of \<open>HideHierarchy\<close> passes through (the values \<open>root\<close> takes, in
  order), following lines 53, 81-85. With a document, these are the nodes handed to
  \<open>AddUndo\<close> at line 56, as they are before the change.
\<close>

fun visited :: "node list \<Rightarrow> bool \<Rightarrow> BaseList2D list" where
  "visited [] sameLevel = []"
| "visited (Node r ts ds # nxt) sameLevel =
     r # (if hideChildren (Node r ts ds) then visited ds True else [])
       @ (if \<not> sameLevel then [] else visited nxt sameLevel)"

text \<open>
  The node reached from a level by a path of child positions: \<open>[i]\<close> is the node at
  position \<open>i\<close> of the level, \<open>i # p\<close> goes on below it.
\<close>

fun node_at :: "'a tree list \<Rightarrow> nat list \<Rightarrow> 'a tree option" where
  "node_at xs [] = None"
| "node_at xs (i # p) =
     (if i < length xs
      then (if p = [] then Some (xs ! i) else node_at (down (xs ! i)) p)
      else None)"

text \<open>
  The materials that \<open>HideMaterials\<close> resolves below an object: the links of the
  texture tags of the object and of every object below it (lines 96-111).
\<close>

definition tag_material :: "(nat \<Rightarrow> nat option) \<Rightarrow> node \<Rightarrow> nat list" where
  "tag_material GetLink tag =
     (if GetType (info tag) = Ttexture
      then (case TEXTURETAG_MATERIAL (info tag) of
              None \<Rightarrow> []
            | Some data \<Rightarrow> (case GetLink data of None \<Rightarrow> [] | Some mat \<Rightarrow> [mat]))
      else [])"

fun linked_materials :: "(nat \<Rightarrow> nat option) \<Rightarrow> node \<Rightarrow> nat list" where
  "linked_materials GetLink (Node r ts ds) =
     concat (map (tag_material GetLink) ts) @ concat (map (linked_materials GetLink) ds)"

text \<open>
  \<open>HideHierarchy(mat, hide, doc, false)\<close> applied to the materials at the addresses in
  \<open>S\<close>, every other material left as it is.
\<close>

definition on_materials :: "nat set \<Rightarrow> bool \<Rightarrow> materials \<Rightarrow> materials" where
  "on_materials S hide mats =
     (\<lambda>a. if a \<in> S then map_option (\<lambda>m. hd (HideHierarchy [m] hide False)) (mats a)
          else mats a)"

section \<open>An example scene\<close>

text \<open>
  A container with one tag and three children: an object that carries a texture tag
  linked to material 7 and has a child of its own, a locked container with a hidden
  child, and a null object whose parameter container holds a protection hash, with a
  child. Everything but the child of the locked container is visible and selected.
\<close>

definition bc_ex :: BaseContainer where
  "bc_ex = \<lparr>CONTAINEROBJECT_PROTECTIONHASH = [], NRCONTAINER_HIDE_TAGS = False,
            NRCONTAINER_HIDE_MATERIALS = True, NRCONTAINER_GENERATOR_CHECKMARK = True,
            NRCONTAINER_INFO_NAME = [], NRCONTAINER_INFO_VERSION = [],
            NRCONTAINER_INFO_URL = [], NRCONTAINER_INFO_AUTHOR = [],
            NRCONTAINER_INFO_AUTHOR_EMAIL = [], NRCONTAINER_INFO_DESCRIPTION = []\<rparr>"

definition obj_ex :: BaseList2D where
  "obj_ex = \<lparr>nbit_ohide = False, nbit_tl1_hide = False, nbit_tl2_hide = False,
             nbit_tl3_hide = False, nbit_tl4_hide = False, nbit_thide = False,
             BIT_ACTIVE = True, GetType = Oother, GetDataInstance = bc_ex,
             TEXTURETAG_MATERIAL = None, NodeData = None\<rparr>"

definition hidden_ex :: BaseList2D where
  "hidden_ex = \<lparr>nbit_ohide = True, nbit_tl1_hide = True, nbit_tl2_hide = True,
                nbit_tl3_hide = True, nbit_tl4_hide = True, nbit_thide = True,
                BIT_ACTIVE = True, GetType = Oother, GetDataInstance = bc_ex,
                TEXTURETAG_MATERIAL = None, NodeData = None\<rparr>"

definition data_ex :: ContainerObject where
  "data_ex = \<lparr>m_customIcon = None, m_protected = False, m_protectionHash = []\<rparr>"

definition HashString_ex :: "string \<Rightarrow> string" where
  "HashString_ex s = CHR ''#'' # s"

definition GetLink_ex :: "nat \<Rightarrow> nat option" where
  "GetLink_ex l = Some l"

definition inner_ex :: node where
  "inner_ex =
     Node (obj_ex\<lparr>GetType := Ocontainer,
                  NodeData := Some (data_ex\<lparr>m_protected := True,
                                            m_protectionHash := ''#in''\<rparr>)\<rparr>)
       [] [Node hidden_ex [] []]"

definition null_ex :: node where
  "null_ex =
     Node (obj_ex\<lparr>GetDataInstance := bc_ex\<lparr>CONTAINEROBJECT_PROTECTIONHASH := ''#old''\<rparr>\<rparr>)
       [] [Node obj_ex [] []]"

definition container_ex :: node where
  "container_ex =
     Node (obj_ex\<lparr>GetType := Ocontainer, NodeData := Some data_ex\<rparr>)
       [Node (obj_ex\<lparr>GetType := Tother\<rparr>) [] []]
       [Node obj_ex
          [Node (obj_ex\<lparr>GetType := Ttexture, TEXTURETAG_MATERIAL := Some 7\<rparr>) [] []]
          [Node obj_ex [] []],
        inner_ex,
        null_ex]"

definition mats_ex :: materials where
  "mats_ex = [7 \<mapsto> Node (obj_ex\<lparr>GetType := Mmaterial\<rparr>) [] []]"

text \<open>The same container, locked with the password \<open>abc\<close> and not yet hidden.\<close>

definition locked_ex :: node where
  "locked_ex = SetNodeData container_ex
                 (data_ex\<lparr>m_protected := True, m_protectionHash := ''#abc''\<rparr>)"

text \<open>Three users at the password dialog, and a container locked with no password.\<close>

definition PasswordDialog_abc :: "bool \<Rightarrow> bool \<Rightarrow> string option" where
  "PasswordDialog_abc confirm cancel = Some ''abc''"

definition PasswordDialog_xyz :: "bool \<Rightarrow> bool \<Rightarrow> string option" where
  "PasswordDialog_xyz confirm cancel = Some ''xyz''"

definition PasswordDialog_cancelled :: "bool \<Rightarrow> bool \<Rightarrow> string option" where
  "PasswordDialog_cancelled confirm cancel = None"

definition locked_empty_ex :: node where
  "locked_empty_ex = SetNodeData container_ex
                       (data_ex\<lparr>m_protected := True, m_protectionHash := ''#''\<rparr>)"

text \<open>
  A container with both flags unset whose tag (a texture tag linked to material 7) and
  only child are hidden.
\<close>

definition all_hidden_ex :: node where
  "all_hidden_ex =
     Node (obj_ex\<lparr>GetType := Ocontainer, NodeData := Some data_ex,
                  GetDataInstance := bc_ex\<lparr>NRCONTAINER_HIDE_MATERIALS := False\<rparr>\<rparr>)
       [Node (hidden_ex\<lparr>GetType := Ttexture, TEXTURETAG_MATERIAL := Some 7\<rparr>) [] []]
       [Node hidden_ex [] []]"

text \<open>The document of that container: material 7, hidden.\<close>

definition hidden_mats_ex :: materials where
  "hidden_mats_ex = [7 \<mapsto> Node (hidden_ex\<lparr>GetType := Mmaterial\<rparr>) [] []]"

section \<open>Facts about the traversal\<close>

lemmas ex_defs = bc_ex_def obj_ex_def hidden_ex_def data_ex_def HashString_ex_def
  GetLink_ex_def inner_ex_def null_ex_def container_ex_def mats_ex_def locked_ex_def
  PasswordDialog_abc_def PasswordDialog_xyz_def PasswordDialog_cancelled_def
  locked_empty_ex_def

lemma change_bits_eq:
  "change_bits hide r =
     r\<lparr>nbit_ohide := hide, nbit_tl1_hide := hide, nbit_tl2_hide := hide,
       nbit_tl3_hide := hide, nbit_tl4_hide := hide, nbit_thide := hide,
       BIT_ACTIVE := False\<rparr>"
  by (simp add: change_bits_def DelBit_ACTIVE_def)

lemmas eval_defs = hideChildren_def IsInstanceOf_Obase_def ContainerIsProtected_def
  change_bits_eq visibility_bits_def numeral_eq_Suc ToggleProtect_def HideNodes_def
  SetNodeData_def HideMaterials_tag_def notify_def Let_def

text \<open>Whether the loop descends depends on type, parameters and node data only.\<close>

lemma hideChildren_info:
  "GetType (info a) = GetType (info b) \<Longrightarrow>
   GetDataInstance (info a) = GetDataInstance (info b) \<Longrightarrow>
   NodeData (info a) = NodeData (info b) \<Longrightarrow> hideChildren a = hideChildren b"
  by (simp add: hideChildren_def IsInstanceOf_Obase_def ContainerIsProtected_def)

lemma hideChildren_change_bits:
  "hideChildren (Node (change_bits hide r) ts ds) = hideChildren (Node r ts' ds')"
  by (rule hideChildren_info) (simp_all add: change_bits_eq)

lemma HideHierarchy_length [simp]:
  "length (HideHierarchy xs hide sameLevel) = length xs"
  by (induction xs hide sameLevel rule: HideHierarchy.induct) simp_all

lemma HideHierarchy_single:
  "HideHierarchy [m] hide False =
     [Node (change_bits hide (info m)) (tags m)
        (if hideChildren m then HideHierarchy (down m) hide True else down m)]"
  using hideChildren_change_bits[of hide "info m" "tags m" "down m" "tags m" "down m"]
  by (cases m) simp

lemma HideHierarchy_visited:
  "visited (HideHierarchy xs hide sameLevel) sameLevel =
     map (change_bits hide) (visited xs sameLevel)"
proof (induction xs hide sameLevel rule: HideHierarchy.induct)
  case (1 hide sameLevel)
  show ?case by simp
next
  case (2 r ts ds nxt hide sameLevel)
  show ?case
    using 2 hideChildren_change_bits[of hide r ts _ ts ds] by simp
qed

text \<open>The toggle sets an absolute state: a second run overrides the first.\<close>

lemma HideHierarchy_twice:
  "HideHierarchy (HideHierarchy xs h1 sameLevel) h2 sameLevel = HideHierarchy xs h2 sameLevel"
proof (induction xs h1 sameLevel rule: HideHierarchy.induct)
  case (1 hide sameLevel)
  show ?case by simp
next
  case (2 r ts ds nxt hide sameLevel)
  have cb: "change_bits h2 (change_bits hide r) = change_bits h2 r"
    by (simp add: change_bits_eq)
  show ?case
    using 2 hideChildren_change_bits[of _ r ts _ ts ds] by (simp add: cb)
qed

lemma HideHierarchy_level_bits:
  "list_all (\<lambda>c. visibility_bits (info c) = replicate 6 hide) (HideHierarchy xs hide True)"
proof (induction xs hide "True" rule: HideHierarchy.induct)
  case (1 hide)
  show ?case by simp
next
  case (2 r ts ds nxt hide)
  then show ?case
    by (simp add: change_bits_eq visibility_bits_def numeral_eq_Suc)
qed

lemma HideHierarchy_keeps_visible:
  "\<forall>n \<in> set (visited xs sameLevel). visibility_bits n = replicate 6 False \<Longrightarrow>
     map (map_tree visibility_bits) (HideHierarchy xs False sameLevel) =
     map (map_tree visibility_bits) xs"
proof (induction xs "False" sameLevel rule: HideHierarchy.induct)
  case (1 sameLevel)
  show ?case by simp
next
  case (2 r ts ds nxt sameLevel)
  have r: "visibility_bits (change_bits False r) = visibility_bits r"
    using "2.prems" by (simp add: visibility_bits_def change_bits_eq numeral_eq_Suc)
  show ?case
    using 2 r hideChildren_change_bits[of False r ts ds ts ds] by auto
qed

text \<open>Below a node at which the loop does not descend nothing changes.\<close>

lemma HideHierarchy_nth_down:
  "i < length xs \<Longrightarrow>
     down (HideHierarchy xs hide sameLevel ! i) = down (xs ! i) \<or>
     (hideChildren (xs ! i) \<and>
      down (HideHierarchy xs hide sameLevel ! i) = HideHierarchy (down (xs ! i)) hide True)"
proof (induction xs hide sameLevel arbitrary: i rule: HideHierarchy.induct)
  case (1 hide sameLevel)
  then show ?case by simp
next
  case (2 r ts ds nxt hide sameLevel)
  show ?case
  proof (cases i)
    case 0
    then show ?thesis
      using hideChildren_change_bits[of hide r ts ds ts ds] by simp
  next
    case (Suc j)
    then show ?thesis using 2 by (cases sameLevel) simp_all
  qed
qed

lemma node_at_append:
  "node_at xs p = Some b \<Longrightarrow> q \<noteq> [] \<Longrightarrow> node_at xs (p @ q) = node_at (down b) q"
proof (induction p arbitrary: xs)
  case Nil
  then show ?case by simp
next
  case (Cons i p)
  then show ?case by (cases "p = []") (auto split: if_splits)
qed

lemma HideHierarchy_below_boundary:
  "node_at xs p = Some b \<Longrightarrow> \<not> hideChildren b \<Longrightarrow> q \<noteq> [] \<Longrightarrow>
     node_at (HideHierarchy xs hide sameLevel) (p @ q) = node_at xs (p @ q)"
proof (induction p arbitrary: xs sameLevel)
  case Nil
  then show ?case by simp
next
  case (Cons i p)
  from Cons.prems(1) have i: "i < length xs" by (simp split: if_splits)
  note d = HideHierarchy_nth_down[OF i, of hide sameLevel]
  show ?case
  proof (cases "p = []")
    case True
    with Cons.prems(1) i have b: "b = xs ! i" by simp
    with Cons.prems(2) d have "down (HideHierarchy xs hide sameLevel ! i) = down (xs ! i)"
      by auto
    then show ?thesis using i True Cons.prems(3) by simp
  next
    case False
    with Cons.prems(1) i have sub: "node_at (down (xs ! i)) p = Some b" by simp
    from d show ?thesis
    proof
      assume "down (HideHierarchy xs hide sameLevel ! i) = down (xs ! i)"
      then show ?thesis using i False by simp
    next
      assume "hideChildren (xs ! i) \<and>
        down (HideHierarchy xs hide sameLevel ! i) = HideHierarchy (down (xs ! i)) hide True"
      then show ?thesis
        using i False Cons.IH[OF sub Cons.prems(2) Cons.prems(3), of True] by simp
    qed
  qed
qed

section \<open>Facts about HideMaterials and HideNodes\<close>

lemma hd_HideHierarchy_idem:
  "hd (HideHierarchy [hd (HideHierarchy [m] hide False)] hide False) =
     hd (HideHierarchy [m] hide False)"
proof -
  obtain x where x: "HideHierarchy [m] hide False = [x]"
    by (simp add: HideHierarchy_single)
  have "HideHierarchy (HideHierarchy [m] hide False) hide False = HideHierarchy [m] hide False"
    by (rule HideHierarchy_twice)
  then show ?thesis by (simp add: x)
qed

lemma on_materials_union:
  "on_materials S hide (on_materials T hide mats) = on_materials (S \<union> T) hide mats"
proof
  fix a
  show "on_materials S hide (on_materials T hide mats) a = on_materials (S \<union> T) hide mats a"
    by (cases "mats a") (simp_all add: on_materials_def hd_HideHierarchy_idem)
qed

lemma on_materials_bits:
  assumes "a \<in> S" and "mats a = Some m"
  shows "\<exists>m'. on_materials S hide mats a = Some m' \<and>
               visibility_bits (info m') = replicate 6 hide \<and> \<not> BIT_ACTIVE (info m')"
  using assms
  by (simp add: on_materials_def HideHierarchy_single change_bits_eq visibility_bits_def
      numeral_eq_Suc)

lemma HideMaterials_tag_on:
  "HideMaterials_tag G hide tag mats = on_materials (set (tag_material G tag)) hide mats"
proof
  fix a
  show "HideMaterials_tag G hide tag mats a =
          on_materials (set (tag_material G tag)) hide mats a"
  proof (cases "GetType (info tag) = Ttexture")
    case False
    then show ?thesis
      by (simp add: HideMaterials_tag_def tag_material_def on_materials_def)
  next
    case True
    show ?thesis
    proof (cases "TEXTURETAG_MATERIAL (info tag)")
      case None
      with True show ?thesis
        by (simp add: HideMaterials_tag_def tag_material_def on_materials_def)
    next
      case (Some l)
      show ?thesis
      proof (cases "G l")
        case None
        with True Some show ?thesis
          by (simp add: HideMaterials_tag_def tag_material_def on_materials_def)
      next
        case (Some mat)
        with True \<open>TEXTURETAG_MATERIAL (info tag) = Some l\<close> show ?thesis
          by (cases "mats mat")
            (simp_all add: HideMaterials_tag_def tag_material_def on_materials_def)
      qed
    qed
  qed
qed

lemma fold_tags_on:
  "fold (HideMaterials_tag G hide) ts mats =
     on_materials (set (concat (map (tag_material G) ts))) hide mats"
proof (induction ts arbitrary: mats)
  case Nil
  show ?case by (simp add: on_materials_def)
next
  case (Cons t ts)
  have u: "set (concat (map (tag_material G) ts)) \<union> set (tag_material G t) =
        set (concat (map (tag_material G) (t # ts)))"
    by auto
  have "fold (HideMaterials_tag G hide) (t # ts) mats =
        fold (HideMaterials_tag G hide) ts (HideMaterials_tag G hide t mats)"
    by simp
  also have "\<dots> = on_materials (set (concat (map (tag_material G) ts))) hide
        (on_materials (set (tag_material G t)) hide mats)"
    by (simp only: Cons HideMaterials_tag_on)
  also have "\<dots> = on_materials (set (concat (map (tag_material G) (t # ts)))) hide mats"
    by (simp only: on_materials_union u)
  finally show ?case .
qed

lemma HideMaterials_on:
  "HideMaterials G op hide mats = on_materials (set (linked_materials G op)) hide mats"
proof (induction G op hide mats rule: HideMaterials.induct)
  case (1 G r ts ds hide mats)
  have "fold (\<lambda>child. HideMaterials G child hide) ds' m =
          on_materials (set (concat (map (linked_materials G) ds'))) hide m"
    if "set ds' \<subseteq> set ds" for ds' m
    using that
  proof (induction ds' arbitrary: m)
    case Nil
    show ?case by (simp add: on_materials_def)
  next
    case (Cons d ds')
    have u: "set (concat (map (linked_materials G) ds')) \<union> set (linked_materials G d) =
          set (concat (map (linked_materials G) (d # ds')))"
      by auto
    have d: "HideMaterials G d hide m = on_materials (set (linked_materials G d)) hide m"
      using Cons.prems by (simp add: 1)
    have "fold (\<lambda>child. HideMaterials G child hide) ds' (HideMaterials G d hide m) =
          on_materials (set (concat (map (linked_materials G) ds'))) hide
            (HideMaterials G d hide m)"
      using Cons.prems by (simp add: Cons.IH)
    then show ?case
      by (simp only: fold_simps d on_materials_union u)
  qed
  from this[of ds] have "HideMaterials G (Node r ts ds) hide mats =
     on_materials (set (concat (map (linked_materials G) ds))) hide
       (on_materials (set (concat (map (tag_material G) ts))) hide mats)"
    by (simp add: fold_tags_on)
  moreover have "set (concat (map (linked_materials G) ds))
       \<union> set (concat (map (tag_material G) ts)) = set (linked_materials G (Node r ts ds))"
    by auto
  ultimately show ?case
    by (simp only: on_materials_union)
qed

text \<open>\<open>HideMaterials\<close> reads types and links only, which the traversal leaves alone.\<close>

lemma linked_materials_tags:
  "linked_materials G (Node r (HideHierarchy ts h sameLevel) ds) = linked_materials G (Node r' ts ds)"
proof -
  have "map (tag_material G) (HideHierarchy ts h sameLevel) = map (tag_material G) ts"
    by (induction ts h sameLevel rule: HideHierarchy.induct)
      (simp_all add: tag_material_def change_bits_eq)
  then show ?thesis by simp
qed

lemma linked_materials_down:
  "map (linked_materials G) (HideHierarchy xs h sameLevel) = map (linked_materials G) xs"
  by (induction xs h sameLevel rule: HideHierarchy.induct) simp_all

lemma HideNodes_down [simp]:
  "down (fst (HideNodes GetLink op hide mats)) = HideHierarchy (down op) hide True"
  by (simp add: HideNodes_def Let_def)

lemma HideNodes_info [simp]:
  "info (fst (HideNodes GetLink op hide mats)) = info op"
  by (simp add: HideNodes_def Let_def)

lemma HideNodes_tags:
  "tags (fst (HideNodes GetLink op hide mats)) =
     (if hide \<longrightarrow> NRCONTAINER_HIDE_TAGS (GetDataInstance (info op))
      then HideHierarchy (tags op) hide True else tags op)"
  by (simp add: HideNodes_def Let_def)

lemma HideNodes_mats:
  "snd (HideNodes G op hide mats) =
     (if hide \<longrightarrow> NRCONTAINER_HIDE_MATERIALS (GetDataInstance (info op))
      then on_materials (set (linked_materials G op)) hide mats else mats)"
proof -
  have a: "linked_materials G (Node (info op) ts (HideHierarchy (down op) hide True)) =
        linked_materials G (Node (info op) ts (down op))" for ts
    by (simp add: linked_materials_down)
  have b: "linked_materials G (Node (info op) (tags op) (down op)) = linked_materials G op"
    by (cases op) simp
  have c: "linked_materials G (Node (info op) (tags op) (HideHierarchy (down op) hide True)) =
        linked_materials G op"
    using a[of "tags op"] b by (simp only:)
  have d: "linked_materials G (Node (info op) (HideHierarchy (tags op) hide True)
              (HideHierarchy (down op) hide True)) = linked_materials G op"
    using linked_materials_tags[of G "info op" "tags op" hide True
        "HideHierarchy (down op) hide True" "info op"] c
    by (simp only:)
  show ?thesis
    using c d
    by (cases hide)
      (simp_all add: HideNodes_def Let_def HideMaterials_on del: linked_materials.simps)
qed

section \<open>The traversal primitive\<close>

text \<open>
  C8. Every node the traversal passes through ends with all six visibility bits equal
  to \<open>hide\<close> (set together when hiding, cleared together when revealing) and with
  its selection bit cleared; nothing else of the node changes, and the traversal of the
  result passes through the same nodes.
\<close>

theorem HideHierarchy_sets_all_bits:
  "visited (HideHierarchy xs hide sameLevel) sameLevel =
     map (\<lambda>n. n\<lparr>nbit_ohide := hide, nbit_tl1_hide := hide, nbit_tl2_hide := hide,
                 nbit_tl3_hide := hide, nbit_tl4_hide := hide, nbit_thide := hide,
                 BIT_ACTIVE := False\<rparr>)
       (visited xs sameLevel)
   \<and> list_all (\<lambda>n. visibility_bits n = replicate 6 hide \<and> \<not> BIT_ACTIVE n)
        (visited (HideHierarchy xs hide sameLevel) sameLevel)"
proof -
  have "change_bits hide =
      (\<lambda>n. n\<lparr>nbit_ohide := hide, nbit_tl1_hide := hide, nbit_tl2_hide := hide,
              nbit_tl3_hide := hide, nbit_tl4_hide := hide, nbit_thide := hide,
              BIT_ACTIVE := False\<rparr>)"
    by (rule ext) (rule change_bits_eq)
  then have eq: "visited (HideHierarchy xs hide sameLevel) sameLevel =
     map (\<lambda>n. n\<lparr>nbit_ohide := hide, nbit_tl1_hide := hide, nbit_tl2_hide := hide,
                 nbit_tl3_hide := hide, nbit_tl4_hide := hide, nbit_thide := hide,
                 BIT_ACTIVE := False\<rparr>)
       (visited xs sameLevel)"
    using HideHierarchy_visited[of xs hide sameLevel] by simp
  have "list_all (\<lambda>n. visibility_bits n = replicate 6 hide \<and> \<not> BIT_ACTIVE n)
          (visited (HideHierarchy xs hide sameLevel) sameLevel)"
    unfolding eq by (simp add: list_all_iff visibility_bits_def numeral_eq_Suc)
  with eq show ?thesis by simp
qed

text \<open>
  In the example scene, hiding the children of the container passes through four
  nodes, all selected before; revealing them again passes through the same four.
\<close>

theorem HideHierarchy_sets_all_bits_witness:
  "map visibility_bits (visited (HideHierarchy (down container_ex) True True) True)
     = replicate 4 (replicate 6 True)
   \<and> map BIT_ACTIVE (visited (HideHierarchy (down container_ex) True True) True)
     = replicate 4 False
   \<and> map BIT_ACTIVE (visited (down container_ex) True) = replicate 4 True
   \<and> map visibility_bits
       (visited (HideHierarchy (HideHierarchy (down container_ex) True True) False True) True)
     = replicate 4 (replicate 6 False)"
  using HideHierarchy_sets_all_bits[of "down container_ex" True True]
    HideHierarchy_sets_all_bits[of "HideHierarchy (down container_ex) True True" False True]
  by (simp add: ex_defs eval_defs)

section \<open>Protection boundaries\<close>

text \<open>
  C2. Let \<open>B\<close> be a locked container somewhere below the container \<open>A\<close> (at the
  path \<open>p\<close> from the children of \<open>A\<close>) and \<open>X\<close> a node below \<open>B\<close> (at the path
  \<open>q\<close> from the children of \<open>B\<close>). After \<open>HideNodes\<close> on \<open>A\<close> the node at that place
  is still \<open>X\<close>, with its visibility bits and everything else as before: the traversal
  does not descend into the children of a locked container. It holds for hiding and for
  revealing alike, and whether or not \<open>A\<close> itself is locked.
\<close>

theorem HideNodes_respects_locked_container:
  assumes "node_at (down A) p = Some B"
    and "fst (ContainerIsProtected (Some B) None)"
    and "node_at (down B) q = Some X"
  shows "node_at (down (fst (HideNodes GetLink A hide mats))) (p @ q) = Some X"
proof -
  from assms(3) have q: "q \<noteq> []" by auto
  from assms(2) have "\<not> hideChildren B"
    by (auto simp: hideChildren_def ContainerIsProtected_def IsInstanceOf_Obase_def
        split: option.splits if_splits)
  then have "node_at (HideHierarchy (down A) hide True) (p @ q) = node_at (down A) (p @ q)"
    using assms(1) q by (simp add: HideHierarchy_below_boundary)
  then show ?thesis using node_at_append[OF assms(1) q] assms(3) by simp
qed

text \<open>
  In the example scene the locked container is the second child, and its hidden child
  stays as it is while the locked container itself is hidden.
\<close>

theorem HideNodes_respects_locked_container_witness:
  "node_at (down container_ex) [1] = Some inner_ex
   \<and> fst (ContainerIsProtected (Some inner_ex) None)
   \<and> node_at (down inner_ex) [0] = Some (Node hidden_ex [] [])
   \<and> node_at (down (fst (HideNodes GetLink_ex container_ex True mats_ex))) ([1] @ [0])
       = Some (Node hidden_ex [] [])
   \<and> map_option (visibility_bits \<circ> info)
        (node_at (down (fst (HideNodes GetLink_ex container_ex True mats_ex))) [1])
       = Some (replicate 6 True)"
proof -
  have h1: "node_at (down container_ex) [1] = Some inner_ex"
    by (simp add: container_ex_def)
  have h2: "fst (ContainerIsProtected (Some inner_ex) None)"
    by (simp add: ex_defs ContainerIsProtected_def)
  have h3: "node_at (down inner_ex) [0] = Some (Node hidden_ex [] [])"
    by (simp add: inner_ex_def)
  have "map_option (visibility_bits \<circ> info)
        (node_at (down (fst (HideNodes GetLink_ex container_ex True mats_ex))) [1])
       = Some (replicate 6 True)"
    by (simp add: ex_defs eval_defs)
  then show ?thesis
    using h1 h2 h3
      HideNodes_respects_locked_container[OF h1 h2 h3, of GetLink_ex True mats_ex]
    by simp
qed

text \<open>
  C10. The traversal also stops at any object, container or not, whose parameter
  container holds a non-empty \<open>CONTAINEROBJECT_PROTECTIONHASH\<close> string: for such an
  object \<open>N\<close> below the container \<open>A\<close>, every node below \<open>N\<close> is the same after
  \<open>HideNodes\<close> on \<open>A\<close>, for hiding and for revealing.
\<close>

theorem HideNodes_respects_protection_hash_parameter:
  assumes "node_at (down A) p = Some N"
    and "IsInstanceOf_Obase (info N)"
    and "CONTAINEROBJECT_PROTECTIONHASH (GetDataInstance (info N)) \<noteq> []"
    and "node_at (down N) q = Some X"
  shows "\<not> hideChildren N
    \<and> node_at (down (fst (HideNodes GetLink A hide mats))) (p @ q) = Some X"
proof -
  from assms(4) have q: "q \<noteq> []" by auto
  from assms(2,3) have stop: "\<not> hideChildren N"
    by (simp add: hideChildren_def)
  then have "node_at (HideHierarchy (down A) hide True) (p @ q) = node_at (down A) (p @ q)"
    using assms(1) q by (simp add: HideHierarchy_below_boundary)
  then show ?thesis using stop node_at_append[OF assms(1) q] assms(4) by simp
qed

text \<open>
  In the example scene the third child is a null object (not a container, no node
  data) with such a string; its child stays visible and selected when the container
  hides its children, and the null object itself is hidden.
\<close>

theorem HideNodes_respects_protection_hash_parameter_witness:
  "node_at (down container_ex) [2] = Some null_ex
   \<and> GetType (info null_ex) = Oother
   \<and> NodeData (info null_ex) = None
   \<and> CONTAINEROBJECT_PROTECTIONHASH (GetDataInstance (info null_ex)) = ''#old''
   \<and> node_at (down null_ex) [0] = Some (Node obj_ex [] [])
   \<and> node_at (down (fst (HideNodes GetLink_ex container_ex True mats_ex))) ([2] @ [0])
       = Some (Node obj_ex [] [])
   \<and> map_option (visibility_bits \<circ> info)
        (node_at (down (fst (HideNodes GetLink_ex container_ex True mats_ex))) [2])
       = Some (replicate 6 True)"
proof -
  have h1: "node_at (down container_ex) [2] = Some null_ex"
    by (simp add: container_ex_def)
  have h2: "IsInstanceOf_Obase (info null_ex)"
    by (simp add: ex_defs IsInstanceOf_Obase_def)
  have h3: "CONTAINEROBJECT_PROTECTIONHASH (GetDataInstance (info null_ex)) \<noteq> []"
    by (simp add: ex_defs)
  have h4: "node_at (down null_ex) [0] = Some (Node obj_ex [] [])"
    by (simp add: null_ex_def)
  have "map_option (visibility_bits \<circ> info)
        (node_at (down (fst (HideNodes GetLink_ex container_ex True mats_ex))) [2])
       = Some (replicate 6 True)"
    by (simp add: ex_defs eval_defs)
  moreover have "GetType (info null_ex) = Oother" "NodeData (info null_ex) = None"
    "CONTAINEROBJECT_PROTECTIONHASH (GetDataInstance (info null_ex)) = ''#old''"
    by (simp_all add: ex_defs)
  ultimately show ?thesis
    using h1 h4
      HideNodes_respects_protection_hash_parameter[OF h1 h2 h3 h4, of GetLink_ex True mats_ex]
    by simp
qed

section \<open>The protection state machine\<close>

lemma SetNodeData_simps [simp]:
  "down (SetNodeData op d) = down op"
  "tags (SetNodeData op d) = tags op"
  "info (SetNodeData op d) = (info op)\<lparr>NodeData := Some d\<rparr>"
  by (simp_all add: SetNodeData_def)

lemma ToggleProtect_lock_eq:
  assumes "NodeData (info op) = Some this" and "\<not> m_protected this"
    and "PasswordDialog False True = Some password"
  shows "ToggleProtect HashString PasswordDialog GetLink op mats =
     \<lparr>r_op = fst (HideNodes GetLink (SetNodeData op
               (this\<lparr>m_protected := True, m_protectionHash := HashString password\<rparr>))
               True mats),
      r_mats = snd (HideNodes GetLink (SetNodeData op
               (this\<lparr>m_protected := True, m_protectionHash := HashString password\<rparr>))
               True mats),
      r_events = PasswordDialog_call False True # notify\<rparr>"
  using assms by (simp add: ToggleProtect_def Let_def)

lemma ToggleProtect_unlock_eq:
  assumes "NodeData (info op) = Some this" and "m_protected this"
    and "m_protectionHash this = HashString []
         \<or> (PasswordDialog True True = Some password
            \<and> m_protectionHash this = HashString password)"
  shows "ToggleProtect HashString PasswordDialog GetLink op mats =
     \<lparr>r_op = fst (HideNodes GetLink (SetNodeData op (this\<lparr>m_protected := False\<rparr>))
               False mats),
      r_mats = snd (HideNodes GetLink (SetNodeData op (this\<lparr>m_protected := False\<rparr>))
               False mats),
      r_events = (if m_protectionHash this = HashString [] then []
                  else [PasswordDialog_call True True]) @ notify\<rparr>"
  using assms by (auto simp add: ToggleProtect_def Let_def)

text \<open>
  C1. Lock an unlocked container with some password, then toggle again and enter a
  password with the same hash. If every node the traversal reaches below the container
  was visible before, then afterwards the six visibility bits of every node below the
  container are what they were, while the selection bit of every node the traversal
  reached is cleared. In between, those nodes are hidden, and the container is locked
  with the hash of the password. Visibility is only asked of the nodes the traversal
  reaches, so nested locked containers need not be absent: what lies below them is
  never touched.
\<close>

theorem ToggleProtect_round_trip:
  assumes nd: "NodeData (info op) = Some this"
    and unl: "\<not> m_protected this"
    and p1: "PasswordDialog_a False True = Some password"
    and p2: "PasswordDialog_b True True = Some entered"
    and ok: "HashString entered = HashString password"
    and vis: "\<forall>n \<in> set (visited (down op) True). visibility_bits n = replicate 6 False"
  shows "let r1 = ToggleProtect HashString PasswordDialog_a GetLink op mats;
             r2 = ToggleProtect HashString PasswordDialog_b GetLink (r_op r1) (r_mats r1)
         in map (map_tree visibility_bits) (down (r_op r2))
              = map (map_tree visibility_bits) (down op)
          \<and> list_all (\<lambda>n. \<not> BIT_ACTIVE n) (visited (down (r_op r2)) True)
          \<and> list_all (\<lambda>n. visibility_bits n = replicate 6 True \<and> \<not> BIT_ACTIVE n)
               (visited (down (r_op r1)) True)
          \<and> NodeData (info (r_op r1)) =
               Some (this\<lparr>m_protected := True, m_protectionHash := HashString password\<rparr>)
          \<and> NodeData (info (r_op r2)) =
               Some (this\<lparr>m_protected := False, m_protectionHash := HashString password\<rparr>)"
proof -
  define this1 where
    "this1 = this\<lparr>m_protected := True, m_protectionHash := HashString password\<rparr>"
  define r1 where "r1 = ToggleProtect HashString PasswordDialog_a GetLink op mats"
  define r2 where
    "r2 = ToggleProtect HashString PasswordDialog_b GetLink (r_op r1) (r_mats r1)"
  have r1: "r_op r1 = fst (HideNodes GetLink (SetNodeData op this1) True mats)"
    unfolding r1_def this1_def
    using ToggleProtect_lock_eq[where PasswordDialog=PasswordDialog_a, OF nd unl p1] by simp
  have n1: "NodeData (info (r_op r1)) = Some this1" by (simp add: r1)
  have d1: "down (r_op r1) = HideHierarchy (down op) True True" by (simp add: r1)
  have l1: "m_protected this1" by (simp add: this1_def)
  have l2: "m_protectionHash this1 = HashString []
         \<or> (PasswordDialog_b True True = Some entered
            \<and> m_protectionHash this1 = HashString entered)"
    by (simp add: this1_def ok p2)
  have r2: "r_op r2 = fst (HideNodes GetLink
              (SetNodeData (r_op r1) (this1\<lparr>m_protected := False\<rparr>)) False (r_mats r1))"
    unfolding r2_def
    using ToggleProtect_unlock_eq[where PasswordDialog=PasswordDialog_b
        and HashString=HashString, OF n1 l1 l2]
    by simp
  have d2: "down (r_op r2) = HideHierarchy (down op) False True"
    by (simp add: r2 d1 HideHierarchy_twice)
  have a: "map (map_tree visibility_bits) (down (r_op r2))
             = map (map_tree visibility_bits) (down op)"
    unfolding d2 using vis by (rule HideHierarchy_keeps_visible)
  have b: "list_all (\<lambda>n. \<not> BIT_ACTIVE n) (visited (down (r_op r2)) True)"
    unfolding d2 by (simp add: HideHierarchy_visited change_bits_eq list_all_iff)
  have c: "list_all (\<lambda>n. visibility_bits n = replicate 6 True \<and> \<not> BIT_ACTIVE n)
             (visited (down (r_op r1)) True)"
    unfolding d1
    by (simp add: HideHierarchy_visited change_bits_eq visibility_bits_def numeral_eq_Suc
        list_all_iff)
  have d: "NodeData (info (r_op r2)) =
             Some (this\<lparr>m_protected := False, m_protectionHash := HashString password\<rparr>)"
    by (simp add: r2 this1_def)
  show ?thesis
    using a b c d n1 unfolding Let_def r1_def r2_def this1_def by simp
qed

text \<open>
  The example container is locked and unlocked with the password \<open>abc\<close>. Its children
  were selected before (\<open>obj_ex\<close>); after the round trip the four nodes the traversal
  reaches are visible and no longer selected, and the stored hash is still there.
\<close>

theorem ToggleProtect_round_trip_witness:
  "NodeData (info container_ex) = Some data_ex
   \<and> \<not> m_protected data_ex
   \<and> list_all (\<lambda>n. visibility_bits n = replicate 6 False \<and> BIT_ACTIVE n)
       (visited (down container_ex) True)
   \<and> (let r1 = ToggleProtect HashString_ex PasswordDialog_abc GetLink_ex
                  container_ex mats_ex;
           r2 = ToggleProtect HashString_ex PasswordDialog_abc GetLink_ex
                  (r_op r1) (r_mats r1)
       in map (map_tree visibility_bits) (down (r_op r2))
            = map (map_tree visibility_bits) (down container_ex)
        \<and> list_all (\<lambda>n. \<not> BIT_ACTIVE n) (visited (down (r_op r2)) True)
        \<and> list_all (\<lambda>n. visibility_bits n = replicate 6 True \<and> \<not> BIT_ACTIVE n)
             (visited (down (r_op r1)) True)
        \<and> NodeData (info (r_op r1)) =
             Some (data_ex\<lparr>m_protected := True, m_protectionHash := HashString_ex ''abc''\<rparr>)
        \<and> NodeData (info (r_op r2)) =
             Some (data_ex\<lparr>m_protected := False, m_protectionHash := HashString_ex ''abc''\<rparr>)
        \<and> length (visited (down (r_op r2)) True) = 4)"
proof -
  have h1: "NodeData (info container_ex) = Some data_ex" by (simp add: ex_defs)
  have h2: "\<not> m_protected data_ex" by (simp add: ex_defs)
  have h3: "list_all (\<lambda>n. visibility_bits n = replicate 6 False \<and> BIT_ACTIVE n)
       (visited (down container_ex) True)"
    by (simp add: ex_defs eval_defs)
  then have h4: "\<forall>n \<in> set (visited (down container_ex) True).
      visibility_bits n = replicate 6 False"
    by (simp add: list_all_iff)
  have p: "PasswordDialog_abc c k = Some ''abc''" for c k
    by (simp add: PasswordDialog_abc_def)
  have len: "length (visited (down (r_op (ToggleProtect HashString_ex
       PasswordDialog_abc GetLink_ex
       (r_op (ToggleProtect HashString_ex PasswordDialog_abc GetLink_ex
                  container_ex mats_ex))
       (r_mats (ToggleProtect HashString_ex PasswordDialog_abc GetLink_ex
                  container_ex mats_ex))))) True) = 4"
    by (simp add: ex_defs eval_defs)
  show ?thesis
    using h1 h2 h3 len
      ToggleProtect_round_trip[where PasswordDialog_a=PasswordDialog_abc
        and PasswordDialog_b=PasswordDialog_abc
        and HashString=HashString_ex and GetLink=GetLink_ex and mats=mats_ex,
        OF h1 h2 p p refl h4]
    by (simp add: Let_def)
qed

text \<open>
  C3 as the claim states it fails: unlocking with the right password leaves the stored
  hash in place. The example container locked with \<open>abc\<close> is unlocked with \<open>abc\<close>,
  and its \<open>m_protectionHash\<close> is still the hash of \<open>abc\<close>, not the empty string.
\<close>

theorem ToggleProtect_unlock_hash_counterexample:
  "map_option m_protected (NodeData (info locked_ex)) = Some True
   \<and> map_option m_protectionHash (NodeData (info locked_ex)) = Some (HashString_ex ''abc'')
   \<and> PasswordDialog_abc True True = Some ''abc''
   \<and> map_option m_protected (NodeData (info (r_op
         (ToggleProtect HashString_ex PasswordDialog_abc GetLink_ex locked_ex mats_ex))))
       = Some False
   \<and> map_option m_protectionHash (NodeData (info (r_op
         (ToggleProtect HashString_ex PasswordDialog_abc GetLink_ex locked_ex mats_ex))))
       = Some ''#abc''
   \<and> map_option m_protectionHash (NodeData (info (r_op
         (ToggleProtect HashString_ex PasswordDialog_abc GetLink_ex locked_ex mats_ex))))
       \<noteq> Some []"
  by (simp add: ex_defs eval_defs)

text \<open>
  C3, amended. When a locked container is toggled and the entered password hashes to
  the stored \<open>m_protectionHash\<close>, \<open>m_protected\<close> becomes false, \<open>m_protectionHash\<close>
  keeps the value it had, and \<open>HideNodes(op, doc, false)\<close> runs on the container:
  children and tags are revealed.
\<close>

theorem ToggleProtect_unlock_keeps_hash:
  assumes "NodeData (info op) = Some this"
    and "m_protected this"
    and "PasswordDialog True True = Some password"
    and "m_protectionHash this = HashString password"
  shows "r_op (ToggleProtect HashString PasswordDialog GetLink op mats) =
           fst (HideNodes GetLink (SetNodeData op (this\<lparr>m_protected := False\<rparr>)) False mats)
    \<and> r_mats (ToggleProtect HashString PasswordDialog GetLink op mats) =
           snd (HideNodes GetLink (SetNodeData op (this\<lparr>m_protected := False\<rparr>)) False mats)
    \<and> NodeData (info (r_op (ToggleProtect HashString PasswordDialog GetLink op mats))) =
           Some (this\<lparr>m_protected := False\<rparr>)
    \<and> m_protectionHash (this\<lparr>m_protected := False\<rparr>) = HashString password
    \<and> down (r_op (ToggleProtect HashString PasswordDialog GetLink op mats)) =
           HideHierarchy (down op) False True
    \<and> tags (r_op (ToggleProtect HashString PasswordDialog GetLink op mats)) =
           HideHierarchy (tags op) False True"
proof -
  have "m_protectionHash this = HashString []
         \<or> (PasswordDialog True True = Some password
            \<and> m_protectionHash this = HashString password)"
    using assms(3,4) by simp
  from ToggleProtect_unlock_eq[where PasswordDialog=PasswordDialog
      and HashString=HashString, OF assms(1,2) this, of GetLink mats]
  show ?thesis using assms(4) by (simp add: HideNodes_tags)
qed

theorem ToggleProtect_unlock_keeps_hash_witness:
  "NodeData (info locked_ex) = Some (data_ex\<lparr>m_protected := True, m_protectionHash := ''#abc''\<rparr>)
   \<and> PasswordDialog_abc True True = Some ''abc''
   \<and> HashString_ex ''abc'' = ''#abc''
   \<and> NodeData (info (r_op
         (ToggleProtect HashString_ex PasswordDialog_abc GetLink_ex locked_ex mats_ex))) =
       Some (data_ex\<lparr>m_protected := False, m_protectionHash := ''#abc''\<rparr>)
   \<and> down (r_op (ToggleProtect HashString_ex PasswordDialog_abc GetLink_ex locked_ex mats_ex))
       = HideHierarchy (down locked_ex) False True
   \<and> tags (r_op (ToggleProtect HashString_ex PasswordDialog_abc GetLink_ex locked_ex mats_ex))
       = HideHierarchy (tags locked_ex) False True"
proof -
  have h1: "NodeData (info locked_ex) =
      Some (data_ex\<lparr>m_protected := True, m_protectionHash := ''#abc''\<rparr>)"
    by (simp add: ex_defs SetNodeData_def)
  have h2: "m_protected (data_ex\<lparr>m_protected := True, m_protectionHash := ''#abc''\<rparr>)"
    by simp
  have h3: "PasswordDialog_abc True True = Some ''abc''"
    by (simp add: PasswordDialog_abc_def)
  have h4: "m_protectionHash (data_ex\<lparr>m_protected := True, m_protectionHash := ''#abc''\<rparr>)
      = HashString_ex ''abc''"
    by (simp add: HashString_ex_def)
  show ?thesis
    using h1 h3 h4
      ToggleProtect_unlock_keeps_hash[where PasswordDialog=PasswordDialog_abc
        and HashString=HashString_ex, OF h1 h2 h3 h4, of GetLink_ex mats_ex]
    by (simp add: HideNodes_tags)
qed

text \<open>
  C4 as the claim states it fails in the unlocking direction: when the prompt of a
  locked container is cancelled, control still reaches lines 307-309 and the change is
  signalled.
\<close>

theorem ToggleProtect_cancel_unlock_counterexample:
  "map_option m_protected (NodeData (info locked_ex)) = Some True
   \<and> PasswordDialog_cancelled True True = None
   \<and> r_events (ToggleProtect HashString_ex PasswordDialog_cancelled GetLink_ex locked_ex mats_ex)
       = [PasswordDialog_call True True, Message_MSG_CHANGE, SetDirty_DESCRIPTION, EventAdd]"
  by (simp add: ex_defs eval_defs)

text \<open>
  C4, amended. When the password prompt of \<open>ToggleProtect\<close> is cancelled, in either
  direction, the container with its lock fields and all nodes below it, its tags and
  the materials are exactly as before; and when the cancelled prompt was the one for
  locking, nothing but the prompt happened and no change is signalled. (The prompt has
  \<open>confirm\<close> false when locking and true when unlocking, and a locked container shows
  it only if its hash is not that of the empty password.)
\<close>

theorem ToggleProtect_cancelled:
  assumes "NodeData (info op) = Some this"
    and "PasswordDialog (m_protected this) True = None"
    and "m_protected this \<longrightarrow> m_protectionHash this \<noteq> HashString []"
  shows "r_op (ToggleProtect HashString PasswordDialog GetLink op mats) = op
    \<and> r_mats (ToggleProtect HashString PasswordDialog GetLink op mats) = mats
    \<and> (\<not> m_protected this \<longrightarrow>
         r_events (ToggleProtect HashString PasswordDialog GetLink op mats) =
           [PasswordDialog_call False True])"
  using assms by (cases "m_protected this") (simp_all add: ToggleProtect_def Let_def)

theorem ToggleProtect_cancelled_witness:
  "NodeData (info container_ex) = Some data_ex
   \<and> \<not> m_protected data_ex
   \<and> PasswordDialog_cancelled False True = None
   \<and> r_op (ToggleProtect HashString_ex PasswordDialog_cancelled GetLink_ex container_ex mats_ex)
       = container_ex
   \<and> r_mats (ToggleProtect HashString_ex PasswordDialog_cancelled GetLink_ex container_ex mats_ex)
       = mats_ex
   \<and> r_events (ToggleProtect HashString_ex PasswordDialog_cancelled GetLink_ex container_ex mats_ex)
       = [PasswordDialog_call False True]
   \<and> NodeData (info locked_ex) = Some (data_ex\<lparr>m_protected := True, m_protectionHash := ''#abc''\<rparr>)
   \<and> ''#abc'' \<noteq> HashString_ex []
   \<and> PasswordDialog_cancelled True True = None
   \<and> r_op (ToggleProtect HashString_ex PasswordDialog_cancelled GetLink_ex locked_ex mats_ex)
       = locked_ex
   \<and> r_mats (ToggleProtect HashString_ex PasswordDialog_cancelled GetLink_ex locked_ex mats_ex)
       = mats_ex"
proof -
  have c: "PasswordDialog_cancelled c k = None" for c k
    by (simp add: PasswordDialog_cancelled_def)
  have a1: "NodeData (info container_ex) = Some data_ex" by (simp add: ex_defs)
  have a2: "\<not> m_protected data_ex" by (simp add: data_ex_def)
  have a3: "m_protected data_ex \<longrightarrow> m_protectionHash data_ex \<noteq> HashString_ex []"
    by (simp add: data_ex_def)
  have b1: "NodeData (info locked_ex) =
      Some (data_ex\<lparr>m_protected := True, m_protectionHash := ''#abc''\<rparr>)"
    by (simp add: ex_defs SetNodeData_def)
  have b2: "''#abc'' \<noteq> HashString_ex []" by (simp add: HashString_ex_def)
  then have b3: "m_protected (data_ex\<lparr>m_protected := True, m_protectionHash := ''#abc''\<rparr>)
      \<longrightarrow> m_protectionHash (data_ex\<lparr>m_protected := True, m_protectionHash := ''#abc''\<rparr>)
            \<noteq> HashString_ex []"
    by simp
  show ?thesis
    using a1 a2 b1 b2 c
      ToggleProtect_cancelled[where PasswordDialog=PasswordDialog_cancelled
        and HashString=HashString_ex, OF a1 c a3, of GetLink_ex mats_ex]
      ToggleProtect_cancelled[where PasswordDialog=PasswordDialog_cancelled
        and HashString=HashString_ex, OF b1 c b3, of GetLink_ex mats_ex]
    by simp
qed

text \<open>
  C5. For a locked container: if its hash is not that of the empty password and the
  entered password hashes to something else, the container (still locked), everything
  below it, its tags and the materials are exactly as before, and the user is told that
  the password is invalid; if its hash is that of the empty password, it is unlocked
  and revealed with no call of the password dialog at all.
\<close>

theorem ToggleProtect_authentication:
  assumes "NodeData (info op) = Some this" and "m_protected this"
  shows "(m_protectionHash this \<noteq> HashString [] \<and> PasswordDialog True True = Some entered
          \<and> HashString entered \<noteq> m_protectionHash this
          \<longrightarrow> ToggleProtect HashString PasswordDialog GetLink op mats =
              \<lparr>r_op = op, r_mats = mats,
               r_events = [PasswordDialog_call True True, MessageDialog_IDS_PASSWORD_INVALID,
                           Message_MSG_CHANGE, SetDirty_DESCRIPTION, EventAdd]\<rparr>)
       \<and> (m_protectionHash this = HashString []
          \<longrightarrow> ToggleProtect HashString PasswordDialog GetLink op mats =
              \<lparr>r_op = fst (HideNodes GetLink (SetNodeData op (this\<lparr>m_protected := False\<rparr>))
                        False mats),
               r_mats = snd (HideNodes GetLink (SetNodeData op (this\<lparr>m_protected := False\<rparr>))
                        False mats),
               r_events = [Message_MSG_CHANGE, SetDirty_DESCRIPTION, EventAdd]\<rparr>
            \<and> NodeData (info (r_op (ToggleProtect HashString PasswordDialog GetLink op mats))) =
                Some (this\<lparr>m_protected := False\<rparr>))"
  using assms by (auto simp add: ToggleProtect_def Let_def notify_def)

text \<open>
  The example container locked with \<open>abc\<close> stays as it is when \<open>xyz\<close> is entered; the
  one locked with the empty password is unlocked even by a user who would cancel.
\<close>

theorem ToggleProtect_authentication_witness:
  "NodeData (info locked_ex) = Some (data_ex\<lparr>m_protected := True, m_protectionHash := ''#abc''\<rparr>)
   \<and> ''#abc'' \<noteq> HashString_ex []
   \<and> PasswordDialog_xyz True True = Some ''xyz''
   \<and> HashString_ex ''xyz'' \<noteq> ''#abc''
   \<and> ToggleProtect HashString_ex PasswordDialog_xyz GetLink_ex locked_ex mats_ex =
        \<lparr>r_op = locked_ex, r_mats = mats_ex,
         r_events = [PasswordDialog_call True True, MessageDialog_IDS_PASSWORD_INVALID,
                     Message_MSG_CHANGE, SetDirty_DESCRIPTION, EventAdd]\<rparr>
   \<and> NodeData (info locked_empty_ex) =
        Some (data_ex\<lparr>m_protected := True, m_protectionHash := ''#''\<rparr>)
   \<and> ''#'' = HashString_ex []
   \<and> r_events (ToggleProtect HashString_ex PasswordDialog_cancelled GetLink_ex
                  locked_empty_ex mats_ex)
        = [Message_MSG_CHANGE, SetDirty_DESCRIPTION, EventAdd]
   \<and> NodeData (info (r_op (ToggleProtect HashString_ex PasswordDialog_cancelled GetLink_ex
                  locked_empty_ex mats_ex)))
        = Some (data_ex\<lparr>m_protected := False, m_protectionHash := ''#''\<rparr>)"
proof -
  have a1: "NodeData (info locked_ex) =
      Some (data_ex\<lparr>m_protected := True, m_protectionHash := ''#abc''\<rparr>)"
    by (simp add: ex_defs SetNodeData_def)
  have b1: "NodeData (info locked_empty_ex) =
      Some (data_ex\<lparr>m_protected := True, m_protectionHash := ''#''\<rparr>)"
    by (simp add: ex_defs SetNodeData_def)
  have l: "m_protected (data_ex\<lparr>m_protected := True, m_protectionHash := h\<rparr>)" for h
    by simp
  have x: "PasswordDialog_xyz True True = Some ''xyz''"
    by (simp add: PasswordDialog_xyz_def)
  have h: "''#abc'' \<noteq> HashString_ex []" "HashString_ex ''xyz'' \<noteq> ''#abc''"
    "''#'' = HashString_ex []"
    by (simp_all add: HashString_ex_def)
  show ?thesis
    using a1 b1 x h
      ToggleProtect_authentication[where PasswordDialog=PasswordDialog_xyz
        and HashString=HashString_ex, OF a1 l, of "''xyz''" GetLink_ex mats_ex]
      ToggleProtect_authentication[where PasswordDialog=PasswordDialog_cancelled
        and HashString=HashString_ex, OF b1 l, of "''xyz''" GetLink_ex mats_ex]
    by simp
qed

section \<open>The programmatic lock\<close>

lemma change_bits_fun:
  "change_bits hide =
     (\<lambda>i. i\<lparr>nbit_ohide := hide, nbit_tl1_hide := hide, nbit_tl2_hide := hide,
             nbit_tl3_hide := hide, nbit_tl4_hide := hide, nbit_thide := hide,
             BIT_ACTIVE := False\<rparr>)"
  by (rule ext) (rule change_bits_eq)

lemma visited_hidden:
  "list_all (\<lambda>i. visibility_bits i = replicate 6 hide \<and> \<not> BIT_ACTIVE i)
     (visited (HideHierarchy xs hide sameLevel) sameLevel)"
  by (simp add: HideHierarchy_visited list_all_iff change_bits_eq visibility_bits_def
      numeral_eq_Suc)

lemma linked_materials_SetNodeData:
  "linked_materials G (SetNodeData n d) = linked_materials G n"
  by (cases n) (simp add: SetNodeData_def)

text \<open>
  C7. \<open>ContainerProtect\<close> returns false and changes nothing when the node is null, is
  not a container, or is a container that is already locked. For a container with its
  \<open>ContainerObject\<close> data that is not locked it returns true; the container is then
  locked with the given hash if that is not empty and with the hash of the password
  otherwise. With \<open>packup\<close> its subtree is hidden: the traversal passes through the
  same nodes below the container as before the call, every one of them now has all six
  visibility bits set and its selection bit cleared and is otherwise unchanged; the
  tags are hidden in the same way if \<open>NRCONTAINER_HIDE_TAGS\<close> is set and are the same
  tags otherwise; the materials linked below the container are hidden if
  \<open>NRCONTAINER_HIDE_MATERIALS\<close> is set and all materials are the same otherwise.
  Without \<open>packup\<close> nothing but the two lock members changes.
\<close>

theorem ContainerProtect_cases:
  "(op = None \<or> (\<exists>n. op = Some n \<and> (GetType (info n) \<noteq> Ocontainer
                                       \<or> fst (ContainerIsProtected op None)))
      \<longrightarrow> ContainerProtect HashString GetLink op pass hash packup mats = (False, op, mats))
   \<and> (\<forall>n data. op = Some n \<and> GetType (info n) = Ocontainer \<and> NodeData (info n) = Some data
         \<and> \<not> m_protected data
      \<longrightarrow> (\<exists>n' mats'.
            ContainerProtect HashString GetLink op pass hash packup mats = (True, Some n', mats')
            \<and> NodeData (info n') =
                Some (data\<lparr>m_protected := True,
                           m_protectionHash := (if hash \<noteq> [] then hash else HashString pass)\<rparr>)
            \<and> ContainerIsProtected (Some n') (Some []) =
                (True, Some (if hash \<noteq> [] then hash else HashString pass))
            \<and> (packup \<longrightarrow>
                 (n', mats') = HideNodes GetLink (SetNodeData n (data\<lparr>m_protected := True,
                     m_protectionHash := (if hash \<noteq> [] then hash else HashString pass)\<rparr>))
                     True mats
                 \<and> list_all (\<lambda>c. visibility_bits (info c) = replicate 6 True) (down n')
                 \<and> length (down n') = length (down n)
                 \<and> visited (down n') True =
                     map (\<lambda>i. i\<lparr>nbit_ohide := True, nbit_tl1_hide := True,
                                 nbit_tl2_hide := True, nbit_tl3_hide := True,
                                 nbit_tl4_hide := True, nbit_thide := True,
                                 BIT_ACTIVE := False\<rparr>)
                       (visited (down n) True)
                 \<and> list_all (\<lambda>i. visibility_bits i = replicate 6 True \<and> \<not> BIT_ACTIVE i)
                      (visited (down n') True)
                 \<and> visited (tags n') True =
                     (if NRCONTAINER_HIDE_TAGS (GetDataInstance (info n))
                      then map (\<lambda>i. i\<lparr>nbit_ohide := True, nbit_tl1_hide := True,
                                       nbit_tl2_hide := True, nbit_tl3_hide := True,
                                       nbit_tl4_hide := True, nbit_thide := True,
                                       BIT_ACTIVE := False\<rparr>)
                             (visited (tags n) True)
                      else visited (tags n) True)
                 \<and> (\<not> NRCONTAINER_HIDE_TAGS (GetDataInstance (info n)) \<longrightarrow> tags n' = tags n)
                 \<and> mats' =
                     (if NRCONTAINER_HIDE_MATERIALS (GetDataInstance (info n))
                      then on_materials (set (linked_materials GetLink n)) True mats
                      else mats))
            \<and> (\<not> packup \<longrightarrow> down n' = down n \<and> tags n' = tags n \<and> mats' = mats
                 \<and> n' = SetNodeData n (data\<lparr>m_protected := True,
                     m_protectionHash := (if hash \<noteq> [] then hash else HashString pass)\<rparr>))))"
proof (intro conjI allI impI)
  assume "op = None \<or> (\<exists>n. op = Some n \<and> (GetType (info n) \<noteq> Ocontainer
                                       \<or> fst (ContainerIsProtected op None)))"
  then show "ContainerProtect HashString GetLink op pass hash packup mats = (False, op, mats)"
    by (auto simp add: ContainerProtect_def ContainerIsProtected_def split: option.splits)
next
  fix n data
  assume a: "op = Some n \<and> GetType (info n) = Ocontainer \<and> NodeData (info n) = Some data
         \<and> \<not> m_protected data"
  define h where "h = (if hash \<noteq> [] then hash else HashString pass)"
  define locked where
    "locked = SetNodeData n (data\<lparr>m_protected := True, m_protectionHash := h\<rparr>)"
  define n' where "n' = (if packup then fst (HideNodes GetLink locked True mats) else locked)"
  define mats' where "mats' = (if packup then snd (HideNodes GetLink locked True mats) else mats)"
  have run: "ContainerProtect HashString GetLink op pass hash packup mats = (True, Some n', mats')"
    using a by (auto simp add: ContainerProtect_def Let_def locked_def h_def n'_def mats'_def)
  have i: "info n' = (info n)\<lparr>NodeData := Some (data\<lparr>m_protected := True,
      m_protectionHash := h\<rparr>)\<rparr>"
    by (simp add: n'_def locked_def)
  have d: "NodeData (info n') = Some (data\<lparr>m_protected := True, m_protectionHash := h\<rparr>)"
    by (simp add: i)
  have p: "ContainerIsProtected (Some n') (Some []) = (True, Some h)"
    using a by (simp add: ContainerIsProtected_def i)
  have hide: "(n', mats') = HideNodes GetLink locked True mats
      \<and> list_all (\<lambda>c. visibility_bits (info c) = replicate 6 True) (down n')
      \<and> length (down n') = length (down n)
      \<and> visited (down n') True =
          map (\<lambda>i. i\<lparr>nbit_ohide := True, nbit_tl1_hide := True,
                      nbit_tl2_hide := True, nbit_tl3_hide := True,
                      nbit_tl4_hide := True, nbit_thide := True,
                      BIT_ACTIVE := False\<rparr>)
            (visited (down n) True)
      \<and> list_all (\<lambda>i. visibility_bits i = replicate 6 True \<and> \<not> BIT_ACTIVE i)
           (visited (down n') True)
      \<and> visited (tags n') True =
          (if NRCONTAINER_HIDE_TAGS (GetDataInstance (info n))
           then map (\<lambda>i. i\<lparr>nbit_ohide := True, nbit_tl1_hide := True,
                            nbit_tl2_hide := True, nbit_tl3_hide := True,
                            nbit_tl4_hide := True, nbit_thide := True,
                            BIT_ACTIVE := False\<rparr>)
                  (visited (tags n) True)
           else visited (tags n) True)
      \<and> (\<not> NRCONTAINER_HIDE_TAGS (GetDataInstance (info n)) \<longrightarrow> tags n' = tags n)
      \<and> mats' =
          (if NRCONTAINER_HIDE_MATERIALS (GetDataInstance (info n))
           then on_materials (set (linked_materials GetLink n)) True mats
           else mats)"
    if packup
  proof -
    have dn: "down n' = HideHierarchy (down n) True True"
      using that by (simp add: n'_def locked_def)
    have tg: "tags n' = (if NRCONTAINER_HIDE_TAGS (GetDataInstance (info n))
                         then HideHierarchy (tags n) True True else tags n)"
      using that by (simp add: n'_def locked_def HideNodes_tags)
    have mt: "mats' = (if NRCONTAINER_HIDE_MATERIALS (GetDataInstance (info n))
                       then on_materials (set (linked_materials GetLink n)) True mats
                       else mats)"
      using that
      by (simp add: mats'_def locked_def HideNodes_mats linked_materials_SetNodeData)
    have v: "visited (down n') True =
          map (\<lambda>i. i\<lparr>nbit_ohide := True, nbit_tl1_hide := True,
                      nbit_tl2_hide := True, nbit_tl3_hide := True,
                      nbit_tl4_hide := True, nbit_thide := True,
                      BIT_ACTIVE := False\<rparr>)
            (visited (down n) True)"
      unfolding dn HideHierarchy_visited change_bits_fun ..
    have vt: "visited (HideHierarchy (tags n) True True) True =
          map (\<lambda>i. i\<lparr>nbit_ohide := True, nbit_tl1_hide := True,
                      nbit_tl2_hide := True, nbit_tl3_hide := True,
                      nbit_tl4_hide := True, nbit_thide := True,
                      BIT_ACTIVE := False\<rparr>)
            (visited (tags n) True)"
      unfolding HideHierarchy_visited change_bits_fun ..
    have e: "(n', mats') = HideNodes GetLink locked True mats"
      using that by (simp add: n'_def mats'_def)
    have c: "list_all (\<lambda>c. visibility_bits (info c) = replicate 6 True) (down n')"
      unfolding dn by (rule HideHierarchy_level_bits)
    have va: "list_all (\<lambda>i. visibility_bits i = replicate 6 True \<and> \<not> BIT_ACTIVE i)
           (visited (down n') True)"
      unfolding dn by (rule visited_hidden)
    have len: "length (down n') = length (down n)"
      by (simp add: dn)
    from e c len v va vt tg mt show ?thesis by simp
  qed
  have keep: "down n' = down n \<and> tags n' = tags n \<and> mats' = mats \<and> n' = locked"
    if "\<not> packup"
    using that by (simp add: n'_def mats'_def locked_def)
  show "\<exists>n' mats'.
      ContainerProtect HashString GetLink op pass hash packup mats = (True, Some n', mats')
      \<and> NodeData (info n') =
          Some (data\<lparr>m_protected := True,
                     m_protectionHash := (if hash \<noteq> [] then hash else HashString pass)\<rparr>)
      \<and> ContainerIsProtected (Some n') (Some []) =
          (True, Some (if hash \<noteq> [] then hash else HashString pass))
      \<and> (packup \<longrightarrow>
           (n', mats') = HideNodes GetLink (SetNodeData n (data\<lparr>m_protected := True,
               m_protectionHash := (if hash \<noteq> [] then hash else HashString pass)\<rparr>))
               True mats
           \<and> list_all (\<lambda>c. visibility_bits (info c) = replicate 6 True) (down n')
           \<and> length (down n') = length (down n)
           \<and> visited (down n') True =
               map (\<lambda>i. i\<lparr>nbit_ohide := True, nbit_tl1_hide := True,
                           nbit_tl2_hide := True, nbit_tl3_hide := True,
                           nbit_tl4_hide := True, nbit_thide := True,
                           BIT_ACTIVE := False\<rparr>)
                 (visited (down n) True)
           \<and> list_all (\<lambda>i. visibility_bits i = replicate 6 True \<and> \<not> BIT_ACTIVE i)
                (visited (down n') True)
           \<and> visited (tags n') True =
               (if NRCONTAINER_HIDE_TAGS (GetDataInstance (info n))
                then map (\<lambda>i. i\<lparr>nbit_ohide := True, nbit_tl1_hide := True,
                                 nbit_tl2_hide := True, nbit_tl3_hide := True,
                                 nbit_tl4_hide := True, nbit_thide := True,
                                 BIT_ACTIVE := False\<rparr>)
                       (visited (tags n) True)
                else visited (tags n) True)
           \<and> (\<not> NRCONTAINER_HIDE_TAGS (GetDataInstance (info n)) \<longrightarrow> tags n' = tags n)
           \<and> mats' =
               (if NRCONTAINER_HIDE_MATERIALS (GetDataInstance (info n))
                then on_materials (set (linked_materials GetLink n)) True mats
                else mats))
      \<and> (\<not> packup \<longrightarrow> down n' = down n \<and> tags n' = tags n \<and> mats' = mats
           \<and> n' = SetNodeData n (data\<lparr>m_protected := True,
               m_protectionHash := (if hash \<noteq> [] then hash else HashString pass)\<rparr>))"
  proof (intro exI conjI impI)
    show "ContainerProtect HashString GetLink op pass hash packup mats = (True, Some n', mats')"
      by (rule run)
    show "NodeData (info n') =
          Some (data\<lparr>m_protected := True,
                     m_protectionHash := (if hash \<noteq> [] then hash else HashString pass)\<rparr>)"
      using d unfolding h_def .
    show "ContainerIsProtected (Some n') (Some []) =
          (True, Some (if hash \<noteq> [] then hash else HashString pass))"
      using p unfolding h_def .
  next
    assume packup
    note hp = hide[OF this, unfolded locked_def h_def]
    show "(n', mats') = HideNodes GetLink (SetNodeData n (data\<lparr>m_protected := True,
               m_protectionHash := (if hash \<noteq> [] then hash else HashString pass)\<rparr>))
               True mats"
      using hp by (rule conjunct1)
    show "list_all (\<lambda>c. visibility_bits (info c) = replicate 6 True) (down n')"
      using hp by blast
    show "length (down n') = length (down n)"
      using hp by blast
    show "visited (down n') True =
               map (\<lambda>i. i\<lparr>nbit_ohide := True, nbit_tl1_hide := True,
                           nbit_tl2_hide := True, nbit_tl3_hide := True,
                           nbit_tl4_hide := True, nbit_thide := True,
                           BIT_ACTIVE := False\<rparr>)
                 (visited (down n) True)"
      using hp by blast
    show "list_all (\<lambda>i. visibility_bits i = replicate 6 True \<and> \<not> BIT_ACTIVE i)
                (visited (down n') True)"
      using hp by blast
    show "visited (tags n') True =
               (if NRCONTAINER_HIDE_TAGS (GetDataInstance (info n))
                then map (\<lambda>i. i\<lparr>nbit_ohide := True, nbit_tl1_hide := True,
                                 nbit_tl2_hide := True, nbit_tl3_hide := True,
                                 nbit_tl4_hide := True, nbit_thide := True,
                                 BIT_ACTIVE := False\<rparr>)
                       (visited (tags n) True)
                else visited (tags n) True)"
      using hp by blast
    show "tags n' = tags n" if "\<not> NRCONTAINER_HIDE_TAGS (GetDataInstance (info n))"
      using hp that by blast
    show "mats' =
               (if NRCONTAINER_HIDE_MATERIALS (GetDataInstance (info n))
                then on_materials (set (linked_materials GetLink n)) True mats
                else mats)"
      using hp by blast
  next
    assume "\<not> packup"
    note kp = keep[OF this, unfolded locked_def h_def]
    show "down n' = down n" "tags n' = tags n" "mats' = mats"
      "n' = SetNodeData n (data\<lparr>m_protected := True,
               m_protectionHash := (if hash \<noteq> [] then hash else HashString pass)\<rparr>)"
      using kp by blast+
  qed
qed

text \<open>
  On no node, on a null object and on the locked example container the call fails; on
  the unlocked example container it locks with the hash of \<open>abc\<close>, or with the hash
  handed in. With \<open>packup\<close> the traversal passes through four nodes below the
  container (three children and the child of the first), all selected and visible
  before and all hidden and deselected after; the child of the nested locked container
  and the child of the null object with a protection hash are not among them. The tag
  is left alone and material 7 is hidden, as the flags of the example say.
\<close>

theorem ContainerProtect_cases_witness:
  "ContainerProtect HashString_ex GetLink_ex None ''abc'' [] True mats_ex = (False, None, mats_ex)
   \<and> ContainerProtect HashString_ex GetLink_ex (Some null_ex) ''abc'' [] True mats_ex
       = (False, Some null_ex, mats_ex)
   \<and> ContainerProtect HashString_ex GetLink_ex (Some locked_ex) ''abc'' [] True mats_ex
       = (False, Some locked_ex, mats_ex)
   \<and> ContainerProtect HashString_ex GetLink_ex (Some container_ex) ''abc'' [] False mats_ex
       = (True, Some locked_ex, mats_ex)
   \<and> ContainerProtect HashString_ex GetLink_ex (Some container_ex) ''abc'' ''#'' False mats_ex
       = (True, Some locked_empty_ex, mats_ex)
   \<and> ContainerProtect HashString_ex GetLink_ex (Some container_ex) ''abc'' [] True mats_ex
       = (True, Some (fst (HideNodes GetLink_ex locked_ex True mats_ex)),
          snd (HideNodes GetLink_ex locked_ex True mats_ex))
   \<and> ContainerIsProtected (Some (fst (HideNodes GetLink_ex locked_ex True mats_ex))) (Some [])
       = (True, Some ''#abc'')
   \<and> map visibility_bits (visited (down container_ex) True) = replicate 4 (replicate 6 False)
   \<and> map BIT_ACTIVE (visited (down container_ex) True) = replicate 4 True
   \<and> map visibility_bits
        (visited (down (fst (HideNodes GetLink_ex locked_ex True mats_ex))) True)
       = replicate 4 (replicate 6 True)
   \<and> map BIT_ACTIVE
        (visited (down (fst (HideNodes GetLink_ex locked_ex True mats_ex))) True)
       = replicate 4 False
   \<and> node_at (down (fst (HideNodes GetLink_ex locked_ex True mats_ex))) [0, 0]
       = Some (Node (obj_ex\<lparr>nbit_ohide := True, nbit_tl1_hide := True, nbit_tl2_hide := True,
                            nbit_tl3_hide := True, nbit_tl4_hide := True, nbit_thide := True,
                            BIT_ACTIVE := False\<rparr>) [] [])
   \<and> tags (fst (HideNodes GetLink_ex locked_ex True mats_ex)) = tags container_ex
   \<and> map_option (visibility_bits \<circ> info) (snd (HideNodes GetLink_ex locked_ex True mats_ex) 7)
       = Some (replicate 6 True)"
proof -
  have t: "GetType (info null_ex) \<noteq> Ocontainer" by (simp add: ex_defs)
  have l: "fst (ContainerIsProtected (Some locked_ex) None)"
    by (simp add: ex_defs SetNodeData_def ContainerIsProtected_def)
  have c: "GetType (info container_ex) = Ocontainer"
    "NodeData (info container_ex) = Some data_ex" "\<not> m_protected data_ex"
    by (simp_all add: ex_defs)
  have e: "data_ex\<lparr>m_protected := True, m_protectionHash := HashString_ex ''abc''\<rparr>
      = data_ex\<lparr>m_protected := True, m_protectionHash := ''#abc''\<rparr>"
    by (simp add: HashString_ex_def)
  have p: "(a, b) = x \<longleftrightarrow> a = fst x \<and> b = snd x" for a :: node and b :: materials and x
    by auto
  have before: "map visibility_bits (visited (down container_ex) True)
        = replicate 4 (replicate 6 False)"
    "map BIT_ACTIVE (visited (down container_ex) True) = replicate 4 True"
    by (simp_all add: ex_defs eval_defs)
  have after: "map visibility_bits
        (visited (down (fst (HideNodes GetLink_ex locked_ex True mats_ex))) True)
       = replicate 4 (replicate 6 True)"
    "map BIT_ACTIVE
        (visited (down (fst (HideNodes GetLink_ex locked_ex True mats_ex))) True)
       = replicate 4 False"
    "node_at (down (fst (HideNodes GetLink_ex locked_ex True mats_ex))) [0, 0]
       = Some (Node (obj_ex\<lparr>nbit_ohide := True, nbit_tl1_hide := True, nbit_tl2_hide := True,
                            nbit_tl3_hide := True, nbit_tl4_hide := True, nbit_thide := True,
                            BIT_ACTIVE := False\<rparr>) [] [])"
    "tags (fst (HideNodes GetLink_ex locked_ex True mats_ex)) = tags container_ex"
    "map_option (visibility_bits \<circ> info) (snd (HideNodes GetLink_ex locked_ex True mats_ex) 7)
       = Some (replicate 6 True)"
    by (simp_all add: ex_defs eval_defs)
  have calls: "ContainerProtect HashString_ex GetLink_ex None ''abc'' [] True mats_ex
       = (False, None, mats_ex)
   \<and> ContainerProtect HashString_ex GetLink_ex (Some null_ex) ''abc'' [] True mats_ex
       = (False, Some null_ex, mats_ex)
   \<and> ContainerProtect HashString_ex GetLink_ex (Some locked_ex) ''abc'' [] True mats_ex
       = (False, Some locked_ex, mats_ex)
   \<and> ContainerProtect HashString_ex GetLink_ex (Some container_ex) ''abc'' [] False mats_ex
       = (True, Some locked_ex, mats_ex)
   \<and> ContainerProtect HashString_ex GetLink_ex (Some container_ex) ''abc'' ''#'' False mats_ex
       = (True, Some locked_empty_ex, mats_ex)
   \<and> ContainerProtect HashString_ex GetLink_ex (Some container_ex) ''abc'' [] True mats_ex
       = (True, Some (fst (HideNodes GetLink_ex locked_ex True mats_ex)),
          snd (HideNodes GetLink_ex locked_ex True mats_ex))
   \<and> ContainerIsProtected (Some (fst (HideNodes GetLink_ex locked_ex True mats_ex))) (Some [])
       = (True, Some ''#abc'')"
    using t l c
      ContainerProtect_cases[of None HashString_ex GetLink_ex "''abc''" "[]" True mats_ex]
      ContainerProtect_cases[of "Some null_ex" HashString_ex GetLink_ex "''abc''" "[]" True mats_ex]
      ContainerProtect_cases[of "Some locked_ex" HashString_ex GetLink_ex "''abc''" "[]" True
        mats_ex]
      ContainerProtect_cases[of "Some container_ex" HashString_ex GetLink_ex "''abc''" "[]" False
        mats_ex]
      ContainerProtect_cases[of "Some container_ex" HashString_ex GetLink_ex "''abc''" "''#''"
        False mats_ex]
      ContainerProtect_cases[of "Some container_ex" HashString_ex GetLink_ex "''abc''" "[]" True
        mats_ex]
    by (auto simp add: e p locked_ex_def locked_empty_ex_def HashString_ex_def)
  from calls before after show ?thesis by simp
qed

section \<open>HideNodes\<close>

text \<open>
  C6. With \<open>hide\<close> true, \<open>HideNodes\<close> always runs the traversal over the children of
  the container, over its tags only if \<open>NRCONTAINER_HIDE_TAGS\<close> is set, and over the
  materials linked below it only if \<open>NRCONTAINER_HIDE_MATERIALS\<close> is set. With \<open>hide\<close>
  false it runs all three whatever the two flags say. So the children end hidden or
  revealed as asked; after a reveal every tag is visible and every linked material of
  the document is visible; after a hide with a flag unset the tags, or the materials,
  are untouched.
\<close>

theorem HideNodes_hide_and_reveal:
  "HideNodes GetLink op True mats =
     (Node (info op)
        (if NRCONTAINER_HIDE_TAGS (GetDataInstance (info op))
         then HideHierarchy (tags op) True True else tags op)
        (HideHierarchy (down op) True True),
      if NRCONTAINER_HIDE_MATERIALS (GetDataInstance (info op))
      then on_materials (set (linked_materials GetLink op)) True mats else mats)
   \<and> HideNodes GetLink op False mats =
     (Node (info op) (HideHierarchy (tags op) False True) (HideHierarchy (down op) False True),
      on_materials (set (linked_materials GetLink op)) False mats)
   \<and> list_all (\<lambda>c. visibility_bits (info c) = replicate 6 hide)
        (down (fst (HideNodes GetLink op hide mats)))
   \<and> list_all (\<lambda>t. visibility_bits (info t) = replicate 6 False)
        (tags (fst (HideNodes GetLink op False mats)))
   \<and> (\<forall>a m. a \<in> set (linked_materials GetLink op) \<and> mats a = Some m \<longrightarrow>
         (\<exists>m'. snd (HideNodes GetLink op False mats) a = Some m'
               \<and> visibility_bits (info m') = replicate 6 False))
   \<and> (\<forall>a. a \<notin> set (linked_materials GetLink op) \<longrightarrow>
         snd (HideNodes GetLink op hide mats) a = mats a)"
proof -
  have n: "fst (HideNodes GetLink op h mats) =
      Node (info op)
        (if h \<longrightarrow> NRCONTAINER_HIDE_TAGS (GetDataInstance (info op))
         then HideHierarchy (tags op) h True else tags op)
        (HideHierarchy (down op) h True)" for h
    using HideNodes_info[of GetLink op h mats] HideNodes_tags[of GetLink op h mats]
      HideNodes_down[of GetLink op h mats]
    by (cases "fst (HideNodes GetLink op h mats)") simp
  have a: "HideNodes GetLink op True mats =
     (Node (info op)
        (if NRCONTAINER_HIDE_TAGS (GetDataInstance (info op))
         then HideHierarchy (tags op) True True else tags op)
        (HideHierarchy (down op) True True),
      if NRCONTAINER_HIDE_MATERIALS (GetDataInstance (info op))
      then on_materials (set (linked_materials GetLink op)) True mats else mats)"
    using n[of True] HideNodes_mats[of GetLink op True mats]
    by (simp add: prod_eq_iff)
  have b: "HideNodes GetLink op False mats =
     (Node (info op) (HideHierarchy (tags op) False True) (HideHierarchy (down op) False True),
      on_materials (set (linked_materials GetLink op)) False mats)"
    using n[of False] HideNodes_mats[of GetLink op False mats]
    by (simp add: prod_eq_iff)
  have c: "list_all (\<lambda>c. visibility_bits (info c) = replicate 6 hide)
        (down (fst (HideNodes GetLink op hide mats)))"
    by (simp add: HideHierarchy_level_bits)
  have d: "list_all (\<lambda>t. visibility_bits (info t) = replicate 6 False)
        (tags (fst (HideNodes GetLink op False mats)))"
    by (simp add: HideNodes_tags HideHierarchy_level_bits)
  have e: "\<exists>m'. snd (HideNodes GetLink op False mats) a = Some m'
               \<and> visibility_bits (info m') = replicate 6 False"
    if "a \<in> set (linked_materials GetLink op)" "mats a = Some m" for a m
    using on_materials_bits[where mats=mats and hide=False, OF that]
    by (auto simp add: HideNodes_mats)
  have f: "snd (HideNodes GetLink op hide mats) a = mats a"
    if "a \<notin> set (linked_materials GetLink op)" for a
    using that by (simp add: HideNodes_mats on_materials_def)
  from a b c d e f show ?thesis by blast
qed

text \<open>
  The example container has \<open>NRCONTAINER_HIDE_TAGS\<close> unset and
  \<open>NRCONTAINER_HIDE_MATERIALS\<close> set: hiding leaves its tag alone and hides the three
  children and material 7; revealing from a state where tag, children and material are
  all hidden, with both flags unset, makes all of them visible.
\<close>

theorem HideNodes_hide_and_reveal_witness:
  "NRCONTAINER_HIDE_TAGS (GetDataInstance (info container_ex)) = False
   \<and> NRCONTAINER_HIDE_MATERIALS (GetDataInstance (info container_ex)) = True
   \<and> linked_materials GetLink_ex container_ex = [7]
   \<and> tags (fst (HideNodes GetLink_ex container_ex True mats_ex)) = tags container_ex
   \<and> map (visibility_bits \<circ> info) (down (fst (HideNodes GetLink_ex container_ex True mats_ex)))
       = replicate 3 (replicate 6 True)
   \<and> map_option (visibility_bits \<circ> info) (snd (HideNodes GetLink_ex container_ex True mats_ex) 7)
       = Some (replicate 6 True)
   \<and> map (visibility_bits \<circ> info) (tags (fst (HideNodes GetLink_ex all_hidden_ex False
                                                  hidden_mats_ex)))
       = [replicate 6 False]
   \<and> map (visibility_bits \<circ> info) (down (fst (HideNodes GetLink_ex all_hidden_ex False
                                                  hidden_mats_ex)))
       = [replicate 6 False]
   \<and> map_option (visibility_bits \<circ> info)
        (snd (HideNodes GetLink_ex all_hidden_ex False hidden_mats_ex) 7)
       = Some (replicate 6 False)"
proof -
  have l: "linked_materials GetLink_ex container_ex = [7]"
    "linked_materials GetLink_ex all_hidden_ex = [7]"
    by (simp_all add: ex_defs all_hidden_ex_def tag_material_def)
  have f: "NRCONTAINER_HIDE_TAGS (GetDataInstance (info container_ex)) = False"
    "NRCONTAINER_HIDE_MATERIALS (GetDataInstance (info container_ex)) = True"
    by (simp_all add: ex_defs)
  show ?thesis
    using l f
      HideNodes_hide_and_reveal[of GetLink_ex container_ex mats_ex True]
      HideNodes_hide_and_reveal[of GetLink_ex all_hidden_ex hidden_mats_ex False]
    by (simp add: ex_defs all_hidden_ex_def hidden_mats_ex_def eval_defs on_materials_def)
qed

section \<open>Persistence of the lock state\<close>

text \<open>What a successful \<open>Write\<close> appends to the file.\<close>

lemma Write_items:
  assumes "Write True this hf = (True, hf')"
  shows "hf_items hf' = hf_items hf
           @ HF_Bool (m_customIcon this \<noteq> None)
           # (case m_customIcon this of None \<Rightarrow> [] | Some img \<Rightarrow> [HF_Image img])
           @ HF_Bool (m_protected this)
           # (if m_protected this then [HF_String (m_protectionHash this)] else [])"
  using assms
  by (auto simp add: Write_def WriteItem_def split: option.splits if_splits)

lemma Read_items:
  assumes "hf_items file = HF_Bool (m_customIcon this \<noteq> None)
           # (case m_customIcon this of None \<Rightarrow> [] | Some img \<Rightarrow> [HF_Image img])
           @ HF_Bool (m_protected this)
           # (if m_protected this then [HF_String (m_protectionHash this)] else [])
           @ rest"
    and "1000 \<le> level"
  shows "Read True reader file level =
           (True,
            reader\<lparr>m_customIcon := m_customIcon this, m_protected := m_protected this,
                   m_protectionHash := (if m_protected this then m_protectionHash this
                                        else m_protectionHash reader)\<rparr>,
            file\<lparr>hf_items := rest\<rparr>)"
proof (cases "m_customIcon this")
  case None
  with assms show ?thesis
    by (cases "m_protected this") (simp_all add: Read_def)
next
  case (Some img)
  with assms show ?thesis
    by (cases "m_protected this") (simp_all add: Read_def)
qed

text \<open>Below level 1000 \<open>Read\<close> leaves the lock members alone, whatever the file holds.\<close>

lemma Read_old_level:
  assumes "level < 1000"
  shows "m_protected (fst (snd (Read super_Read reader file level))) = m_protected reader
       \<and> m_protectionHash (fst (snd (Read super_Read reader file level)))
           = m_protectionHash reader"
  using assms
  by (auto simp add: Read_def Let_def split: option.splits list.splits hfitem.splits)

lemma Init_unlocked:
  assumes "Init super_Init this (Some n) = (True, fresh, n')"
  shows "\<not> m_protected fresh \<and> m_protectionHash fresh = [] \<and> m_customIcon fresh = None"
  using assms by (auto simp add: Init_def Let_def split: if_splits)

text \<open>
  C9. Whatever a successful \<open>Write\<close> of a container appends to a file, \<open>Read\<close> at
  level 1000 or above accepts it and yields the written \<open>m_protected\<close>, and the
  written \<open>m_protectionHash\<close> when the container is locked; the hash is in the record
  exactly when the container is locked, and when it is not, the reader keeps the hash it
  had. A container that \<open>Init\<close> has set up and that is read at a level below 1000 is
  unlocked, and it accepts the old record, which ends after the icon.
\<close>

theorem persisted_lock_state:
  assumes w: "Write True this hf = (True, hf')"
    and f: "hf_items file = drop (length (hf_items hf)) (hf_items hf') @ rest"
    and l: "1000 \<le> level"
    and i: "Init True blank (Some n) = (True, fresh, n')"
    and o: "old_level < 1000"
  shows "drop (length (hf_items hf)) (hf_items hf') =
           HF_Bool (m_customIcon this \<noteq> None)
           # (case m_customIcon this of None \<Rightarrow> [] | Some img \<Rightarrow> [HF_Image img])
           @ HF_Bool (m_protected this)
           # (if m_protected this then [HF_String (m_protectionHash this)] else [])
    \<and> Read True reader file level =
           (True,
            reader\<lparr>m_customIcon := m_customIcon this, m_protected := m_protected this,
                   m_protectionHash := (if m_protected this then m_protectionHash this
                                        else m_protectionHash reader)\<rparr>,
            file\<lparr>hf_items := rest\<rparr>)
    \<and> m_protected (fst (snd (Read super_Read fresh old_file old_level))) = False
    \<and> Read True fresh (old_file\<lparr>hf_items := HF_Bool False # old_rest\<rparr>) old_level =
           (True, fresh, old_file\<lparr>hf_items := old_rest\<rparr>)
    \<and> Read True fresh (old_file\<lparr>hf_items := HF_Bool True # HF_Image img # old_rest\<rparr>)
           old_level =
           (True, fresh\<lparr>m_customIcon := Some img\<rparr>, old_file\<lparr>hf_items := old_rest\<rparr>)"
proof -
  have items: "drop (length (hf_items hf)) (hf_items hf') =
           HF_Bool (m_customIcon this \<noteq> None)
           # (case m_customIcon this of None \<Rightarrow> [] | Some img \<Rightarrow> [HF_Image img])
           @ HF_Bool (m_protected this)
           # (if m_protected this then [HF_String (m_protectionHash this)] else [])"
    using Write_items[OF w] by simp
  have "hf_items file = HF_Bool (m_customIcon this \<noteq> None)
           # (case m_customIcon this of None \<Rightarrow> [] | Some img \<Rightarrow> [HF_Image img])
           @ HF_Bool (m_protected this)
           # (if m_protected this then [HF_String (m_protectionHash this)] else [])
           @ rest"
    using f items by simp
  from Read_items[OF this l, of reader]
  have rd: "Read True reader file level =
           (True,
            reader\<lparr>m_customIcon := m_customIcon this, m_protected := m_protected this,
                   m_protectionHash := (if m_protected this then m_protectionHash this
                                        else m_protectionHash reader)\<rparr>,
            file\<lparr>hf_items := rest\<rparr>)" .
  note fresh = Init_unlocked[OF i]
  have old: "m_protected (fst (snd (Read super_Read fresh old_file old_level))) = False"
    using Read_old_level[OF o, of super_Read fresh old_file] fresh by simp
  have "fresh\<lparr>m_customIcon := None\<rparr> = fresh"
    using fresh by simp
  then have v0: "Read True fresh (old_file\<lparr>hf_items := HF_Bool False # old_rest\<rparr>) old_level =
           (True, fresh, old_file\<lparr>hf_items := old_rest\<rparr>)"
    using o by (simp add: Read_def)
  have v0i: "Read True fresh (old_file\<lparr>hf_items := HF_Bool True # HF_Image img # old_rest\<rparr>)
           old_level =
           (True, fresh\<lparr>m_customIcon := Some img\<rparr>, old_file\<lparr>hf_items := old_rest\<rparr>)"
    using o by (simp add: Read_def)
  from items rd old v0 v0i show ?thesis by simp
qed

text \<open>
  The data of the locked example container is written to an empty file and read back
  into a freshly initialised container; an unlocked container that still carries an
  old hash is written without it; a record of the old layout loads as unlocked.
\<close>

theorem persisted_lock_state_witness:
  "Write True \<lparr>m_customIcon = None, m_protected = True, m_protectionHash = ''#abc''\<rparr>
      \<lparr>hf_items = [], hf_room = 8\<rparr>
     = (True, \<lparr>hf_items = [HF_Bool False, HF_Bool True, HF_String ''#abc''], hf_room = 5\<rparr>)
   \<and> Init True \<lparr>m_customIcon = Some [1], m_protected = True, m_protectionHash = ''x''\<rparr>
        (Some container_ex)
     = (True, data_ex, Some container_ex)
   \<and> Read True data_ex
        \<lparr>hf_items = [HF_Bool False, HF_Bool True, HF_String ''#abc''], hf_room = 0\<rparr> 1000
     = (True, \<lparr>m_customIcon = None, m_protected = True, m_protectionHash = ''#abc''\<rparr>,
        \<lparr>hf_items = [], hf_room = 0\<rparr>)
   \<and> Write True \<lparr>m_customIcon = None, m_protected = False, m_protectionHash = ''#abc''\<rparr>
      \<lparr>hf_items = [], hf_room = 8\<rparr>
     = (True, \<lparr>hf_items = [HF_Bool False, HF_Bool False], hf_room = 6\<rparr>)
   \<and> Read True data_ex \<lparr>hf_items = [HF_Bool False, HF_Bool False], hf_room = 0\<rparr> 1000
     = (True, data_ex, \<lparr>hf_items = [], hf_room = 0\<rparr>)
   \<and> Read True data_ex \<lparr>hf_items = [HF_Bool False], hf_room = 0\<rparr> 0
     = (True, data_ex, \<lparr>hf_items = [], hf_room = 0\<rparr>)
   \<and> m_protected (fst (snd (Read True data_ex \<lparr>hf_items = [HF_Bool False], hf_room = 0\<rparr> 0)))
     = False"
proof -
  have w1: "Write True \<lparr>m_customIcon = None, m_protected = True, m_protectionHash = ''#abc''\<rparr>
      \<lparr>hf_items = [], hf_room = 8\<rparr>
     = (True, \<lparr>hf_items = [HF_Bool False, HF_Bool True, HF_String ''#abc''], hf_room = 5\<rparr>)"
    by (simp add: Write_def WriteItem_def)
  have w2: "Write True \<lparr>m_customIcon = None, m_protected = False, m_protectionHash = ''#abc''\<rparr>
      \<lparr>hf_items = [], hf_room = 8\<rparr>
     = (True, \<lparr>hf_items = [HF_Bool False, HF_Bool False], hf_room = 6\<rparr>)"
    by (simp add: Write_def WriteItem_def)
  have i: "Init True \<lparr>m_customIcon = Some [1], m_protected = True, m_protectionHash = ''x''\<rparr>
        (Some container_ex)
     = (True, data_ex, Some container_ex)"
    by (simp add: Init_def ex_defs)
  have f1: "hf_items \<lparr>hf_items = [HF_Bool False, HF_Bool True, HF_String ''#abc''], hf_room = 0\<rparr>
     = drop (length (hf_items \<lparr>hf_items = [], hf_room = 8\<rparr>))
         (hf_items \<lparr>hf_items = [HF_Bool False, HF_Bool True, HF_String ''#abc''],
                    hf_room = 5\<rparr>) @ []"
    by simp
  have f2: "hf_items \<lparr>hf_items = [HF_Bool False, HF_Bool False], hf_room = 0\<rparr>
     = drop (length (hf_items \<lparr>hf_items = [], hf_room = 8\<rparr>))
         (hf_items \<lparr>hf_items = [HF_Bool False, HF_Bool False], hf_room = 6\<rparr>) @ []"
    by simp
  have l: "(1000::int) \<le> 1000" "(0::int) < 1000" by simp_all
  show ?thesis
    using w1 w2 i
      persisted_lock_state[OF w1 f1 l(1) i l(2), of data_ex True
        "\<lparr>hf_items = [], hf_room = 0\<rparr>" "[]" "[]"]
      persisted_lock_state[OF w2 f2 l(1) i l(2), of data_ex True
        "\<lparr>hf_items = [HF_Bool False], hf_room = 0\<rparr>" "[]" "[]"]
    by (simp add: data_ex_def)
qed

end
